theory Spec2Isabelle
  imports Main
begin

section \<open>Data model of the read state\<close>

text \<open>
  Coordinates are vectors of the coordinate type \<open>T\<close> (\<open>int\<close> or \<open>int64_t\<close> at the
  dense dispatch); they are modelled as lists of mathematical integers. The source keeps
  a cell range in one array of \<open>2 * dim_num\<close> entries, the first \<open>dim_num\<close> being the
  first endpoint and the remaining ones the last endpoint; the model keeps the two
  endpoints as a pair. A \<open>FragmentCellRange\<close> is the C++ pair of a fragment id and such
  a range, and a \<open>FragmentCellPosRange\<close> the pair of a fragment id and a pair of
  positions in a tile.
\<close>

type_synonym coords = "int list"
type_synonym FragmentCellRange = "int \<times> coords \<times> coords"
type_synonym FragmentCellRanges = "FragmentCellRange list"
type_synonym CellPosRange = "int \<times> int"
type_synonym FragmentCellPosRange = "int \<times> CellPosRange"
type_synonym FragmentCellPosRanges = "FragmentCellPosRange list"
type_synonym FragmentCellPosRangesVec = "FragmentCellPosRanges list"

datatype CellOrder = TILEDB_AS_CO_ROW_MAJOR | TILEDB_AS_CO_COLUMN_MAJOR | TILEDB_AS_CO_HILBERT

datatype Overlap = FULL | PARTIAL_CONTIG | PARTIAL_NON_CONTIG

text \<open>
  The array schema is an external collaborator of \<open>array_read_state.cc\<close>: the file only
  calls it. Its data members are fields, and the helpers the read state calls
  (\<open>cell_order_cmp\<close>, \<open>get_next_cell_coords\<close>, \<open>get_previous_cell_coords\<close>,
  \<open>get_cell_pos\<close>, \<open>get_next_tile_coords\<close>, \<open>tile_order_cmp\<close>, \<open>var_size\<close>) are
  function-valued fields, so that every function of the read state is stated for whatever
  schema it is given. \<open>array_dense\<close> is the schema's \<open>dense()\<close>.
\<close>

record ArraySchema =
  dim_num :: nat
  attribute_num :: nat
  cell_order :: CellOrder
  tile_extents :: "int list"
  domain :: "int list"
  cell_order_cmp :: "coords \<Rightarrow> coords \<Rightarrow> int"
  get_next_cell_coords :: "int list \<Rightarrow> coords \<Rightarrow> coords"
  get_previous_cell_coords :: "int list \<Rightarrow> coords \<Rightarrow> coords"
  get_cell_pos :: "coords \<Rightarrow> int"
  get_next_tile_coords :: "int list \<Rightarrow> coords \<Rightarrow> coords"
  tile_order_cmp :: "coords \<Rightarrow> coords \<Rightarrow> int"
  array_dense :: bool
  var_size :: "int \<Rightarrow> bool"

text \<open>
  A fragment is the second external collaborator. Its internal, mutable part (tile
  cursor, per-attribute copy offsets and overflow flags) is the field
  \<open>fragment_state\<close> of a type the read state never looks into; the member functions
  the read state calls are function-valued fields that read or update that part. A call
  that returns a status other than \<open>TILEDB_FG_OK\<close> gives \<open>None\<close> or \<open>False\<close>.
\<close>

type_synonym buffer = "int list"

record 'fs Fragment =
  fragment_state :: 'fs
  dense :: bool
  coords_exist :: "'fs \<Rightarrow> coords \<Rightarrow> bool"
  get_first_two_coords :: "'fs \<Rightarrow> coords \<Rightarrow> (coords \<times> coords) option"
  get_cell_pos_ranges_sparse ::
    "'fs \<Rightarrow> int \<Rightarrow> int list \<Rightarrow> coords \<times> coords \<Rightarrow> FragmentCellPosRanges option"
  max_overlap :: "'fs \<Rightarrow> int list \<Rightarrow> bool"
  compute_fragment_cell_ranges :: "'fs \<Rightarrow> int \<Rightarrow> FragmentCellRanges"
  get_next_overlapping_tile_mult :: "'fs \<Rightarrow> 'fs"
  get_global_tile_coords :: "'fs \<Rightarrow> coords option"
  copy_cell_range ::
    "'fs \<Rightarrow> int \<Rightarrow> buffer \<Rightarrow> nat \<Rightarrow> nat \<Rightarrow> CellPosRange \<Rightarrow> bool \<times> 'fs \<times> buffer \<times> nat"
  overflow :: "'fs \<Rightarrow> int \<Rightarrow> bool"
  reset_overflow :: "'fs \<Rightarrow> 'fs"
  tile_done :: "'fs \<Rightarrow> int \<Rightarrow> 'fs"

text \<open>
  The status a function of the read state returns. \<open>UNDEFINED_BEHAVIOUR\<close> is not a
  value of the source: it marks an execution that has left defined C++ (an index outside
  a vector, a null pointer read, a failed assertion, the end of a value-returning
  function reached without a \<open>return\<close>), so that such an execution is a visible branch of
  the model rather than an unspecified value. The other components of a result with
  this status carry no meaning.
\<close>

datatype status = TILEDB_ARS_OK | TILEDB_ARS_ERR | UNDEFINED_BEHAVIOUR

text \<open>
  The members of \<open>ArrayReadState\<close>. The \<open>Array\<close> object behind \<open>array_\<close> is external;
  what the read state asks of it (\<open>array_schema()\<close>, \<open>attribute_ids()\<close>, \<open>range()\<close>,
  \<open>fragments()\<close>) are the first four fields. A null pointer is \<open>None\<close>.
\<close>

record 'fs ArrayReadState =
  array_schema :: ArraySchema
  attribute_ids :: "int list"
  array_range :: "int list"
  fragments :: "'fs Fragment list"
  done_' :: bool
  fragment_cell_pos_ranges_vec_' :: FragmentCellPosRangesVec
  fragment_cell_pos_ranges_vec_pos_' :: "int list"
  fragment_global_tile_coords_' :: "coords option list"
  max_overlap_i_' :: int
  max_overlap_range_' :: "int list option"
  max_overlap_type_' :: Overlap
  overflow_' :: "bool list"
  range_global_tile_coords_' :: "coords option"
  range_global_tile_domain_' :: "int list option"
  tile_done_' :: "bool list"

section \<open>Overlap of the query range with the current tile\<close>

text \<open>
  \<open>compute_max_overlap_range<T>\<close>. The first loop writes, per dimension, the query
  range relative to the tile's origin, clipped to the tile. The loops that follow
  classify it; each stops at the first dimension that is not spanned in full.
  Arithmetic is on mathematical integers: overflow of the signed coordinate type is
  undefined in C++ and outside the model.
\<close>

definition max_overlap_range_T :: "ArraySchema \<Rightarrow> int list \<Rightarrow> coords \<Rightarrow> int list" where
  "max_overlap_range_T S rng range_global_tile_coords =
     concat (map (\<lambda>i.
        let tile_coords = range_global_tile_coords ! i * tile_extents S ! i + domain S ! (2 * i)
        in [max (rng ! (2 * i) - tile_coords) 0,
            min (rng ! (2 * i + 1) - tile_coords) (tile_extents S ! i - 1)])
      [0..<dim_num S])"

definition not_full_extent :: "ArraySchema \<Rightarrow> int list \<Rightarrow> nat \<Rightarrow> bool" where
  "not_full_extent S max_overlap_range i =
     (max_overlap_range ! (2 * i) \<noteq> 0 \<or>
      max_overlap_range ! (2 * i + 1) \<noteq> tile_extents S ! i - 1)"

fun overlap_loop :: "(nat \<Rightarrow> bool) \<Rightarrow> nat list \<Rightarrow> Overlap \<Rightarrow> Overlap" where
  "overlap_loop p [] t = t"
| "overlap_loop p (i # is) t = (if p i then PARTIAL_NON_CONTIG else overlap_loop p is t)"

definition max_overlap_type_T :: "ArraySchema \<Rightarrow> int list \<Rightarrow> Overlap" where
  "max_overlap_type_T S max_overlap_range =
     (let t = overlap_loop (not_full_extent S max_overlap_range) [0..<dim_num S] FULL
      in if t = PARTIAL_NON_CONTIG then
           (if cell_order S = TILEDB_AS_CO_ROW_MAJOR then
              overlap_loop (not_full_extent S max_overlap_range) [1..<dim_num S] PARTIAL_CONTIG
            else if cell_order S = TILEDB_AS_CO_COLUMN_MAJOR then
              overlap_loop (not_full_extent S max_overlap_range)
                (rev [0..<dim_num S - 1]) PARTIAL_CONTIG
            else PARTIAL_CONTIG)
         else t)"

definition compute_max_overlap_range :: "'fs ArrayReadState \<Rightarrow> 'fs ArrayReadState option" where
  "compute_max_overlap_range s =
     (case (max_overlap_range_' s, range_global_tile_coords_' s) of
        (Some _, Some tc) \<Rightarrow>
           (let r = max_overlap_range_T (array_schema s) (array_range s) tc
            in Some (s\<lparr> max_overlap_range_' := Some r,
                       max_overlap_type_' := max_overlap_type_T (array_schema s) r \<rparr>))
      | _ \<Rightarrow> None)"

section \<open>Garbage collection of finished plans\<close>

text \<open>
  \<open>clean_up_processed_fragment_cell_pos_ranges\<close>. \<open>min_pos\<close> starts from entry \<open>0\<close> of
  the position vector and the loop then runs over \<open>attribute_ids[1..]\<close>, as in the
  source. \<open>erase(begin, begin + min_pos)\<close> is defined only for
  \<open>0 \<le> min_pos \<le> size\<close>; an index outside a vector gives \<open>None\<close>.
\<close>

definition vec_at :: "'a list \<Rightarrow> int \<Rightarrow> 'a option" where
  "vec_at xs i = (if 0 \<le> i \<and> i < int (length xs) then Some (xs ! nat i) else None)"

fun min_pos_loop :: "int list \<Rightarrow> int list \<Rightarrow> int \<Rightarrow> int option" where
  "min_pos_loop vec_pos [] min_pos = Some min_pos"
| "min_pos_loop vec_pos (a # as) min_pos =
     (case vec_at vec_pos a of
        None \<Rightarrow> None
      | Some p \<Rightarrow> min_pos_loop vec_pos as (if p < min_pos then p else min_pos))"

definition clean_up_processed_fragment_cell_pos_ranges ::
  "'fs ArrayReadState \<Rightarrow> 'fs ArrayReadState option" where
  "clean_up_processed_fragment_cell_pos_ranges s =
     (let vec_pos = fragment_cell_pos_ranges_vec_pos_' s;
          n = attribute_num (array_schema s) + 1
      in case vec_at vec_pos 0 of
           None \<Rightarrow> None
         | Some p0 \<Rightarrow>
            (case min_pos_loop vec_pos (tl (attribute_ids s)) p0 of
               None \<Rightarrow> None
             | Some min_pos \<Rightarrow>
                 if min_pos \<noteq> 0 then
                   (if min_pos < 0 \<or> int (length (fragment_cell_pos_ranges_vec_' s)) < min_pos
                       \<or> length vec_pos < n
                    then None
                    else Some (s\<lparr> fragment_cell_pos_ranges_vec_' :=
                                    drop (nat min_pos) (fragment_cell_pos_ranges_vec_' s),
                                  fragment_cell_pos_ranges_vec_pos_' :=
                                    map (\<lambda>p. if p \<noteq> 0 then p - min_pos else p) (take n vec_pos)
                                    @ drop n vec_pos \<rparr>))
                 else Some s))"

section \<open>The unimplemented entry points\<close>

text \<open>
  \<open>read_multiple_fragments_sparse\<close> and \<open>read_multiple_fragments_dense_attr_var\<close> have
  the body \<open>// TODO\<close>: no statement, and no \<open>return\<close> although the return type is
  \<open>int\<close>. Control flows off the end of a value-returning function, which is undefined
  behaviour in C++: the status is \<open>UNDEFINED_BEHAVIOUR\<close>. The other components of the
  result are the arguments as they were given; with that status they carry no meaning.
\<close>

definition read_multiple_fragments_sparse ::
  "'fs ArrayReadState \<Rightarrow> buffer list \<Rightarrow> nat list
     \<Rightarrow> status \<times> 'fs ArrayReadState \<times> buffer list \<times> nat list" where
  "read_multiple_fragments_sparse s buffers buffer_sizes =
     (UNDEFINED_BEHAVIOUR, s, buffers, buffer_sizes)"

definition read_multiple_fragments_dense_attr_var ::
  "'fs ArrayReadState \<Rightarrow> int \<Rightarrow> buffer \<Rightarrow> nat \<Rightarrow> buffer \<Rightarrow> nat
     \<Rightarrow> status \<times> 'fs ArrayReadState \<times> buffer \<times> nat \<times> buffer \<times> nat" where
  "read_multiple_fragments_dense_attr_var s attribute_id buf buffer_size buffer_var buffer_var_size =
     (UNDEFINED_BEHAVIOUR, s, buf, buffer_size, buffer_var, buffer_var_size)"

section \<open>The merge heap and its comparator\<close>

text \<open>
  \<open>SmallerFragmentCellRange<T>::operator()\<close>: the comparator handed to
  \<open>std::priority_queue\<close>. It compares the first endpoints with the schema's
  \<open>cell_order_cmp\<close> and, when they match, the fragment ids.
\<close>

definition SmallerFragmentCellRange ::
  "ArraySchema \<Rightarrow> FragmentCellRange \<Rightarrow> FragmentCellRange \<Rightarrow> bool" where
  "SmallerFragmentCellRange S a b =
     (let cmp = cell_order_cmp S (fst (snd a)) (fst (snd b))
      in if cmp < 0 then False
         else if cmp > 0 then True
         else fst a < fst b)"

text \<open>
  \<open>std::priority_queue<X, C, Compare>\<close> is a max-heap under \<open>Compare\<close>: \<open>top()\<close> is an
  element no other element is greater than, \<open>pop()\<close> removes it and \<open>push\<close> adds an
  element. The model keeps the elements in a list; \<open>pq_top\<close> scans it and keeps the
  running greatest element, which fixes one choice among equivalent elements where the
  standard leaves the choice open. \<open>top()\<close> of an empty queue is undefined behaviour in
  C++: \<open>pq_top\<close> gives \<open>None\<close> there.
\<close>

fun pq_select :: "('a \<Rightarrow> 'a \<Rightarrow> bool) \<Rightarrow> 'a \<Rightarrow> 'a list \<Rightarrow> 'a" where
  "pq_select lt m [] = m"
| "pq_select lt m (x # xs) = pq_select lt (if lt m x then x else m) xs"

definition pq_top :: "('a \<Rightarrow> 'a \<Rightarrow> bool) \<Rightarrow> 'a list \<Rightarrow> 'a option" where
  "pq_top lt q = (case q of [] \<Rightarrow> None | x # xs \<Rightarrow> Some (pq_select lt x xs))"

definition pq_pop :: "('a \<Rightarrow> 'a \<Rightarrow> bool) \<Rightarrow> 'a list \<Rightarrow> 'a list" where
  "pq_pop lt q = (case pq_top lt q of None \<Rightarrow> q | Some m \<Rightarrow> remove1 m q)"

definition pq_push :: "'a \<Rightarrow> 'a list \<Rightarrow> 'a list" where
  "pq_push x q = q @ [x]"

definition pq_empty :: "'a list \<Rightarrow> bool" where
  "pq_empty q = (q = [])"

section \<open>The per-tile merge\<close>

text \<open>
  \<open>compute_fragment_cell_pos_ranges<T>\<close>, first part: the sweep over the priority
  queue. The local variables of the source keep their names. \<open>top\<close> is \<open>None\<close> when it
  was read by \<open>pq.top()\<close> from an empty queue; the Boolean \<open>empty_top_read\<close> is a ghost
  variable that records that such a read has happened. Wherever the source tests
  \<open>!pq.empty()\<close> before it looks at \<open>top\<close>, the model does the same, so the value read
  from an empty queue is never looked at.

  The inner loop of lines 314--355 discards or trims the tops that come from older
  fragments and start inside the popped range.
\<close>

partial_function (option) discard_loop ::
  "ArraySchema \<Rightarrow> int list \<Rightarrow> FragmentCellRange \<Rightarrow> FragmentCellRanges
     \<Rightarrow> FragmentCellRange option \<Rightarrow> bool
     \<Rightarrow> (FragmentCellRanges \<times> FragmentCellRange option \<times> bool) option" where
  "discard_loop S tile_domain popped pq top_r empty_top_read =
     (if \<not> pq_empty pq \<and>
         (case top_r of
            None \<Rightarrow> False
          | Some (top_fragment_i, top_first, top_last) \<Rightarrow>
              top_fragment_i < fst popped \<and>
              cell_order_cmp S top_first (fst (snd popped)) \<ge> 0 \<and>
              cell_order_cmp S top_first (snd (snd popped)) \<le> 0)
      then
        (case top_r of
           None \<Rightarrow> Some (pq, top_r, empty_top_read)
         | Some (top_fragment_i, top_first, top_last) \<Rightarrow>
            (let pq1 =
                  (if cell_order_cmp S top_last (snd (snd popped)) > 0
                   then pq_push (top_fragment_i,
                                 get_next_cell_coords S tile_domain (snd (snd popped)),
                                 top_last) pq
                   else pq);
                 pq2 = pq_pop (SmallerFragmentCellRange S) pq1;
                 new_top = pq_top (SmallerFragmentCellRange S) pq2
             in discard_loop S tile_domain popped pq2 new_top (empty_top_read \<or> new_top = None)))
      else Some (pq, top_r, empty_top_read))"

text \<open>
  The trimming of the popped range against a newer top (lines 357--391): the part of
  the popped range behind the top is pushed back when the top ends inside it, and the
  popped range is cut to end just before the top starts.
\<close>

definition trim_popped ::
  "ArraySchema \<Rightarrow> int list \<Rightarrow> FragmentCellRange \<Rightarrow> FragmentCellRanges
     \<Rightarrow> FragmentCellRange option \<Rightarrow> FragmentCellRanges \<times> FragmentCellRange" where
  "trim_popped S tile_domain popped pq top_r =
     (case top_r of
        None \<Rightarrow> (pq, popped)
      | Some (top_fragment_i, top_first, top_last) \<Rightarrow>
          if \<not> pq_empty pq \<and> top_fragment_i > fst popped \<and>
             cell_order_cmp S top_first (snd (snd popped)) \<le> 0
          then
            ((if cell_order_cmp S top_last (snd (snd popped)) < 0
              then pq_push (fst popped,
                            get_next_cell_coords S tile_domain top_last,
                            snd (snd popped)) pq
              else pq),
             (fst popped, fst (snd popped), get_previous_cell_coords S tile_domain top_first))
          else (pq, popped))"

text \<open>
  The outer loop (lines 275--452). \<open>fragments[popped_fragment_i]\<close> is evaluated in
  every iteration that reaches it, at line 284 or at line 301; an id outside the vector
  (the id \<open>-1\<close> of an empty-fragment range among them) ends the run as
  \<open>UNDEFINED_BEHAVIOUR\<close>. The result is the status, the ranges produced and the ghost
  flag; \<open>None\<close> stands for a run that does not end.
\<close>

partial_function (option) merge_loop ::
  "ArraySchema \<Rightarrow> 'fs Fragment list \<Rightarrow> int list \<Rightarrow> coords \<Rightarrow> FragmentCellRanges
     \<Rightarrow> FragmentCellRanges \<Rightarrow> bool \<Rightarrow> (status \<times> FragmentCellRanges \<times> bool) option" where
  "merge_loop S frags tile_domain tile_domain_end pq fragment_cell_ranges empty_top_read =
     (if pq_empty pq then Some (TILEDB_ARS_OK, fragment_cell_ranges, empty_top_read)
      else
        (case pq_top (SmallerFragmentCellRange S) pq of
           None \<Rightarrow> Some (UNDEFINED_BEHAVIOUR, fragment_cell_ranges, empty_top_read)
         | Some popped \<Rightarrow>
            (let popped_fragment_i = fst popped;
                 popped_first = fst (snd popped);
                 popped_last = snd (snd popped);
                 pq1 = pq_pop (SmallerFragmentCellRange S) pq
             in case vec_at frags popped_fragment_i of
                  None \<Rightarrow> Some (UNDEFINED_BEHAVIOUR, fragment_cell_ranges, empty_top_read)
                | Some f \<Rightarrow>
                   if pq_empty pq1 \<and>
                      (dense f \<or> popped_first \<noteq> popped_last \<or>
                       coords_exist f (fragment_state f) popped_first)
                   then Some (TILEDB_ARS_OK, fragment_cell_ranges @ [popped], empty_top_read)
                   else
                    (let top_r = pq_top (SmallerFragmentCellRange S) pq1;
                         flag = (empty_top_read \<or> top_r = None)
                     in if dense f \<or> popped_first = popped_last then
                          (if \<not> dense f \<and> \<not> coords_exist f (fragment_state f) popped_first
                           then merge_loop S frags tile_domain tile_domain_end pq1
                                  fragment_cell_ranges flag
                           else
                             (case discard_loop S tile_domain popped pq1 top_r flag of
                                None \<Rightarrow> None
                              | Some (pq2, top2, flag2) \<Rightarrow>
                                 (case trim_popped S tile_domain popped pq2 top2 of
                                    (pq3, popped') \<Rightarrow>
                                      merge_loop S frags tile_domain tile_domain_end pq3
                                        (fragment_cell_ranges @ [popped']) flag2)))
                        else
                          (if \<not> pq_empty pq1 \<and>
                              (case top_r of
                                 None \<Rightarrow> False
                               | Some (top_fragment_i, top_first, top_last) \<Rightarrow>
                                   cell_order_cmp S top_first popped_last > 0)
                           then merge_loop S frags tile_domain tile_domain_end pq1
                                  (fragment_cell_ranges @ [popped]) flag
                           else
                             (case get_first_two_coords f (fragment_state f) popped_first of
                                None \<Rightarrow> Some (TILEDB_ARS_ERR, [], flag)
                              | Some (unary_first, second) \<Rightarrow>
                                  if cell_order_cmp S unary_first tile_domain_end > 0
                                  then merge_loop S frags tile_domain tile_domain_end pq1
                                         fragment_cell_ranges flag
                                  else
                                    (let pq2 = pq_push (popped_fragment_i, unary_first, unary_first) pq1
                                     in if cell_order_cmp S second tile_domain_end > 0
                                        then merge_loop S frags tile_domain tile_domain_end pq2
                                               fragment_cell_ranges flag
                                        else merge_loop S frags tile_domain tile_domain_end
                                               (pq_push (popped_fragment_i, second, popped_last) pq2)
                                               fragment_cell_ranges flag)))))))"

declare discard_loop.simps [code]

declare merge_loop.simps [code]

text \<open>
  Second part (lines 457--497): every range produced is turned into positions in the
  tile. A range of a dense fragment, or of the empty fragment \<open>-1\<close>, is moved to the
  tile's origin and both endpoints are mapped by \<open>get_cell_pos\<close>; a range of a sparse
  fragment is handed to the fragment.
\<close>

definition normalize_coords :: "ArraySchema \<Rightarrow> int list \<Rightarrow> coords \<Rightarrow> coords" where
  "normalize_coords S tile_domain c = map (\<lambda>i. c ! i - tile_domain ! (2 * i)) [0..<dim_num S]"

fun cell_pos_ranges_loop ::
  "ArraySchema \<Rightarrow> 'fs Fragment list \<Rightarrow> int list \<Rightarrow> FragmentCellRanges
     \<Rightarrow> FragmentCellPosRanges \<Rightarrow> status \<times> FragmentCellPosRanges" where
  "cell_pos_ranges_loop S frags tile_domain [] fragment_cell_pos_ranges =
     (TILEDB_ARS_OK, fragment_cell_pos_ranges)"
| "cell_pos_ranges_loop S frags tile_domain ((fragment_i, range_first, range_last) # rest)
       fragment_cell_pos_ranges =
     (if fragment_i = - 1 then
        cell_pos_ranges_loop S frags tile_domain rest
          (fragment_cell_pos_ranges @
             [(fragment_i, (get_cell_pos S (normalize_coords S tile_domain range_first),
                            get_cell_pos S (normalize_coords S tile_domain range_last)))])
      else
        (case vec_at frags fragment_i of
           None \<Rightarrow> (UNDEFINED_BEHAVIOUR, fragment_cell_pos_ranges)
         | Some f \<Rightarrow>
            if dense f then
              cell_pos_ranges_loop S frags tile_domain rest
                (fragment_cell_pos_ranges @
                   [(fragment_i, (get_cell_pos S (normalize_coords S tile_domain range_first),
                                  get_cell_pos S (normalize_coords S tile_domain range_last)))])
            else
              (case get_cell_pos_ranges_sparse f (fragment_state f) fragment_i tile_domain
                      (range_first, range_last) of
                 None \<Rightarrow> (TILEDB_ARS_ERR, fragment_cell_pos_ranges)
               | Some sparse_cell_pos_ranges \<Rightarrow>
                   cell_pos_ranges_loop S frags tile_domain rest
                     (fragment_cell_pos_ranges @ sparse_cell_pos_ranges))))"

definition tile_domain_T :: "ArraySchema \<Rightarrow> coords \<Rightarrow> int list" where
  "tile_domain_T S tile_coords =
     concat (map (\<lambda>i.
        let lo = domain S ! (2 * i) + tile_coords ! i * tile_extents S ! i
        in [lo, lo + tile_extents S ! i - 1]) [0..<dim_num S])"

definition tile_domain_end_T :: "ArraySchema \<Rightarrow> int list \<Rightarrow> coords" where
  "tile_domain_end_T S tile_domain = map (\<lambda>i. tile_domain ! (2 * i + 1)) [0..<dim_num S]"

definition compute_fragment_cell_pos_ranges ::
  "'fs ArrayReadState \<Rightarrow> FragmentCellRanges
     \<Rightarrow> (status \<times> FragmentCellPosRanges \<times> bool) option" where
  "compute_fragment_cell_pos_ranges s unsorted_fragment_cell_ranges =
     (case range_global_tile_coords_' s of
        None \<Rightarrow> Some (UNDEFINED_BEHAVIOUR, [], False)
      | Some tile_coords \<Rightarrow>
         (let S = array_schema s;
              pq = foldl (\<lambda>q x. pq_push x q) [] unsorted_fragment_cell_ranges;
              tile_domain = tile_domain_T S tile_coords;
              tile_domain_end = tile_domain_end_T S tile_domain
          in case merge_loop S (fragments s) tile_domain tile_domain_end pq [] False of
               None \<Rightarrow> None
             | Some (rc, fragment_cell_ranges, empty_top_read) \<Rightarrow>
                 if rc \<noteq> TILEDB_ARS_OK then Some (rc, [], empty_top_read)
                 else
                   (case cell_pos_ranges_loop S (fragments s) tile_domain fragment_cell_ranges []
                    of (rc2, fragment_cell_pos_ranges) \<Rightarrow>
                         Some (rc2, fragment_cell_pos_ranges, empty_top_read))))"

section \<open>Copying a plan into the caller's buffer\<close>

text \<open>
  \<open>copy_cell_range_with_empty<T>\<close> has the body \<open>// TODO\<close>: it writes nothing and
  leaves the offset where it was.
\<close>

definition copy_cell_range_with_empty ::
  "int \<Rightarrow> buffer \<Rightarrow> nat \<Rightarrow> nat \<Rightarrow> CellPosRange \<Rightarrow> buffer \<times> nat" where
  "copy_cell_range_with_empty attribute_id buf buffer_size buffer_offset cell_pos_range =
     (buf, buffer_offset)"

definition vec_set :: "'a list \<Rightarrow> int \<Rightarrow> 'a \<Rightarrow> 'a list option" where
  "vec_set xs i v = (if 0 \<le> i \<and> i < int (length xs) then Some (xs[nat i := v]) else None)"

text \<open>
  The loop of \<open>copy_cell_ranges<T>\<close> over the ranges of the plan (lines 186--218). The
  fragments are objects reached through pointers, so a copy updates the fragment in
  place; the loop stops at the first range after which the fragment reports overflow,
  and records it in \<open>overflow_\<close>.
\<close>

fun copy_loop ::
  "'fs Fragment list \<Rightarrow> bool list \<Rightarrow> int \<Rightarrow> buffer \<Rightarrow> nat \<Rightarrow> nat \<Rightarrow> FragmentCellPosRanges
     \<Rightarrow> status \<times> 'fs Fragment list \<times> bool list \<times> buffer \<times> nat" where
  "copy_loop frags ovf attribute_id buf buffer_size buffer_offset [] =
     (TILEDB_ARS_OK, frags, ovf, buf, buffer_offset)"
| "copy_loop frags ovf attribute_id buf buffer_size buffer_offset
       ((fragment_i, cell_pos_range) # rest) =
     (if fragment_i = - 1 then
        (case copy_cell_range_with_empty attribute_id buf buffer_size buffer_offset cell_pos_range
         of (buf1, off1) \<Rightarrow>
           (case vec_at ovf attribute_id of
              None \<Rightarrow> (UNDEFINED_BEHAVIOUR, frags, ovf, buf1, off1)
            | Some True \<Rightarrow> (TILEDB_ARS_OK, frags, ovf, buf1, off1)
            | Some False \<Rightarrow> copy_loop frags ovf attribute_id buf1 buffer_size off1 rest))
      else
        (case vec_at frags fragment_i of
           None \<Rightarrow> (UNDEFINED_BEHAVIOUR, frags, ovf, buf, buffer_offset)
         | Some f \<Rightarrow>
            (case copy_cell_range f (fragment_state f) attribute_id buf buffer_size buffer_offset
                    cell_pos_range
             of (ok, st1, buf1, off1) \<Rightarrow>
               (let frags1 = frags[nat fragment_i := f\<lparr> fragment_state := st1 \<rparr>]
                in if \<not> ok then (TILEDB_ARS_ERR, frags1, ovf, buf1, off1)
                   else if overflow f st1 attribute_id then
                     (case vec_set ovf attribute_id True of
                        None \<Rightarrow> (UNDEFINED_BEHAVIOUR, frags1, ovf, buf1, off1)
                      | Some ovf1 \<Rightarrow> (TILEDB_ARS_OK, frags1, ovf1, buf1, off1))
                   else copy_loop frags1 ovf attribute_id buf1 buffer_size off1 rest))))"

text \<open>
  The notification of lines 222--228: every fragment whose tile coordinates are those
  of the range's current tile is told that the tile is done for the attribute.
\<close>

fun tile_done_loop ::
  "'fs Fragment list \<Rightarrow> coords option list \<Rightarrow> coords option \<Rightarrow> int
     \<Rightarrow> 'fs Fragment list option" where
  "tile_done_loop [] gs r attribute_id = Some []"
| "tile_done_loop (f # fs) [] r attribute_id = None"
| "tile_done_loop (f # fs) (g # gs) r attribute_id =
     (case g of
        None \<Rightarrow> map_option ((#) f) (tile_done_loop fs gs r attribute_id)
      | Some c \<Rightarrow>
         (case r of
            None \<Rightarrow> None
          | Some rc \<Rightarrow>
              map_option
                ((#) (if c = rc
                      then f\<lparr> fragment_state := tile_done f (fragment_state f) attribute_id \<rparr>
                      else f))
                (tile_done_loop fs gs r attribute_id)))"

text \<open>
  \<open>copy_cell_ranges<T>\<close>. The plan copied is the one at the attribute's position. When
  the loop ends without overflow the position advances and \<open>tile_done_\<close> is set; when it
  ends with overflow the position stays and \<open>tile_done_\<close> is cleared.
\<close>

definition copy_cell_ranges ::
  "int \<Rightarrow> buffer \<Rightarrow> nat \<Rightarrow> nat \<Rightarrow> 'fs ArrayReadState
     \<Rightarrow> status \<times> 'fs ArrayReadState \<times> buffer \<times> nat" where
  "copy_cell_ranges attribute_id buf buffer_size buffer_offset s =
     (case vec_at (fragment_cell_pos_ranges_vec_pos_' s) attribute_id of
        None \<Rightarrow> (UNDEFINED_BEHAVIOUR, s, buf, buffer_offset)
      | Some pos \<Rightarrow>
         (case vec_at (fragment_cell_pos_ranges_vec_' s) pos of
            None \<Rightarrow> (UNDEFINED_BEHAVIOUR, s, buf, buffer_offset)
          | Some fragment_cell_pos_ranges \<Rightarrow>
             if var_size (array_schema s) attribute_id
             then (UNDEFINED_BEHAVIOUR, s, buf, buffer_offset)
             else
              (case copy_loop (fragments s) (overflow_' s) attribute_id buf buffer_size
                      buffer_offset fragment_cell_pos_ranges
               of (rc, frags1, ovf1, buf1, off1) \<Rightarrow>
                 (let s1 = s\<lparr> fragments := frags1, overflow_' := ovf1 \<rparr>
                  in if rc \<noteq> TILEDB_ARS_OK then (rc, s1, buf1, off1)
                     else
                       (case vec_at ovf1 attribute_id of
                          None \<Rightarrow> (UNDEFINED_BEHAVIOUR, s1, buf1, off1)
                        | Some False \<Rightarrow>
                           (case tile_done_loop frags1 (fragment_global_tile_coords_' s)
                                   (range_global_tile_coords_' s) attribute_id of
                              None \<Rightarrow> (UNDEFINED_BEHAVIOUR, s1, buf1, off1)
                            | Some frags2 \<Rightarrow>
                               (case vec_set (tile_done_' s) attribute_id True of
                                  None \<Rightarrow> (UNDEFINED_BEHAVIOUR, s1, buf1, off1)
                                | Some td \<Rightarrow>
                                   (TILEDB_ARS_OK,
                                    s1\<lparr> fragments := frags2,
                                        fragment_cell_pos_ranges_vec_pos_' :=
                                          (fragment_cell_pos_ranges_vec_pos_' s)
                                            [nat attribute_id := pos + 1],
                                        tile_done_' := td \<rparr>,
                                    buf1, off1)))
                        | Some True \<Rightarrow>
                           (case vec_set (tile_done_' s) attribute_id False of
                              None \<Rightarrow> (UNDEFINED_BEHAVIOUR, s1, buf1, off1)
                            | Some td \<Rightarrow>
                               (TILEDB_ARS_OK, s1\<lparr> tile_done_' := td \<rparr>, buf1, off1)))))))"


section \<open>The tile cursor\<close>

text \<open>
  \<open>cpp_div\<close> is the division of C++ on integers, which truncates towards zero.
  \<open>ceil_div\<close> stands for \<open>ceil(double(a) / b)\<close>, the exact ceiling of the quotient; the
  rounding of \<open>double\<close> on values beyond its precision is outside the model.
\<close>

definition cpp_div :: "int \<Rightarrow> int \<Rightarrow> int" where
  "cpp_div a b = sgn a * sgn b * (\<bar>a\<bar> div \<bar>b\<bar>)"

definition ceil_div :: "int \<Rightarrow> int \<Rightarrow> int" where
  "ceil_div a b = - ((- a) div b)"

text \<open>
  \<open>init_range_global_tile_coords<T>\<close>: the query range in tile coordinates, cut to the
  tile domain of the array; the cursor starts at its low corner, or stays null when the
  two do not overlap. A tile extent of zero (a division by zero) and a failed assertion
  give \<open>None\<close>.
\<close>

definition init_range_global_tile_coords :: "'fs ArrayReadState \<Rightarrow> 'fs ArrayReadState option" where
  "init_range_global_tile_coords s =
     (let S = array_schema s; d = domain S; e = tile_extents S; r = array_range s;
          n = dim_num S;
          tile_domain = concat (map (\<lambda>i.
             [0, ceil_div (d ! (2 * i + 1) - d ! (2 * i) + 1) (e ! i) - 1]) [0..<n]);
          range_global_tile_domain = concat (map (\<lambda>i.
             [max (cpp_div (r ! (2 * i) - d ! (2 * i)) (e ! i)) (tile_domain ! (2 * i)),
              min (cpp_div (r ! (2 * i + 1) - d ! (2 * i)) (e ! i)) (tile_domain ! (2 * i + 1))])
             [0..<n]);
          overlap = list_all (\<lambda>i.
             \<not> (range_global_tile_domain ! (2 * i) > tile_domain ! (2 * i + 1) \<or>
                range_global_tile_domain ! (2 * i + 1) < tile_domain ! (2 * i))) [0..<n]
      in if list_ex (\<lambda>i. e ! i = 0) [0..<n] \<or> range_global_tile_domain_' s \<noteq> None then None
         else if \<not> overlap then Some (s\<lparr> range_global_tile_domain_' := None \<rparr>)
         else Some (s\<lparr> range_global_tile_domain_' := Some range_global_tile_domain,
                      range_global_tile_coords_' :=
                        Some (map (\<lambda>i. range_global_tile_domain ! (2 * i)) [0..<n]) \<rparr>))"

text \<open>
  \<open>get_next_range_global_tile_coords<T>\<close>: the schema advances the cursor in tile
  order; a cursor that has left the range's tile domain becomes null together with the
  domain.
\<close>

definition get_next_range_global_tile_coords ::
  "'fs ArrayReadState \<Rightarrow> 'fs ArrayReadState option" where
  "get_next_range_global_tile_coords s =
     (case (range_global_tile_domain_' s, range_global_tile_coords_' s) of
        (Some td, Some tc) \<Rightarrow>
          (let tc' = get_next_tile_coords (array_schema s) td tc;
               inside_domain = list_all (\<lambda>i.
                  \<not> (tc' ! i < td ! (2 * i) \<or> tc' ! i > td ! (2 * i + 1)))
                  [0..<dim_num (array_schema s)]
           in if \<not> inside_domain
              then Some (s\<lparr> range_global_tile_domain_' := None,
                           range_global_tile_coords_' := None \<rparr>)
              else Some (s\<lparr> range_global_tile_coords_' := Some tc' \<rparr>))
      | _ \<Rightarrow> None)"

section \<open>The ranges of the fragment with the maximum overlap\<close>

text \<open>
  The carries of the slab loops of \<open>compute_max_overlap_fragment_cell_ranges<T>\<close>. In
  row-major order the loop \<open>while(i > 0 && coords[i] > g[2*i+1])\<close> resets dimension \<open>i\<close>
  and increments dimension \<open>i - 1\<close>; in column-major order the loop
  \<open>while(i < dim_num-1 && coords[i] > g[2*i+1])\<close> increments dimension \<open>i + 1\<close>, and its
  third argument counts the dimensions left, \<open>dim_num - 1 - i\<close>.
\<close>

fun row_carry :: "int list \<Rightarrow> nat \<Rightarrow> coords \<Rightarrow> coords" where
  "row_carry g 0 coords = coords"
| "row_carry g (Suc i) coords =
     (if coords ! Suc i > g ! (2 * Suc i + 1)
      then row_carry g i (coords[Suc i := g ! (2 * Suc i), i := coords ! i + 1])
      else coords)"

fun col_carry :: "int list \<Rightarrow> nat \<Rightarrow> nat \<Rightarrow> coords \<Rightarrow> coords" where
  "col_carry g i 0 coords = coords"
| "col_carry g i (Suc k) coords =
     (if coords ! i > g ! (2 * i + 1)
      then col_carry g (Suc i) k (coords[i := g ! (2 * i), Suc i := coords ! Suc i + 1])
      else coords)"

partial_function (option) row_slabs ::
  "nat \<Rightarrow> int list \<Rightarrow> int \<Rightarrow> coords \<Rightarrow> FragmentCellRanges \<Rightarrow> FragmentCellRanges option" where
  "row_slabs n g max_overlap_i coords fragment_cell_ranges =
     (if coords ! 0 \<le> g ! 1 then
        (let cell_range = (take (n - 1) coords @ [g ! (2 * (n - 1))],
                           take (n - 1) coords @ [g ! (2 * (n - 1) + 1)])
         in row_slabs n g max_overlap_i
              (row_carry g (n - 2) (coords[n - 2 := coords ! (n - 2) + 1]))
              (fragment_cell_ranges @ [(max_overlap_i, cell_range)]))
      else Some fragment_cell_ranges)"

partial_function (option) col_slabs ::
  "nat \<Rightarrow> int list \<Rightarrow> int \<Rightarrow> coords \<Rightarrow> FragmentCellRanges \<Rightarrow> FragmentCellRanges option" where
  "col_slabs n g max_overlap_i coords fragment_cell_ranges =
     (if coords ! (n - 1) \<le> g ! (2 * (n - 1) + 1) then
        (let cell_range = (g ! 0 # tl coords, g ! 1 # tl coords)
         in col_slabs n g max_overlap_i
              (col_carry g 1 (n - 2) (coords[1 := coords ! 1 + 1]))
              (fragment_cell_ranges @ [(max_overlap_i, cell_range)]))
      else Some fragment_cell_ranges)"

declare row_slabs.simps [code]

declare col_slabs.simps [code]

text \<open>
  \<open>compute_max_overlap_fragment_cell_ranges<T>\<close>: one range when the overlap is a
  single run of cells, one range per slab otherwise. The slab loops index dimension
  \<open>dim_num - 2\<close> (row-major) or \<open>1\<close> (column-major), which does not exist for fewer than
  two dimensions; that case and the \<open>assert(0)\<close> of any other cell order give
  \<open>UNDEFINED_BEHAVIOUR\<close>. \<open>None\<close> is a slab loop that does not end.
\<close>

definition compute_max_overlap_fragment_cell_ranges ::
  "'fs ArrayReadState \<Rightarrow> FragmentCellRanges \<Rightarrow> (status \<times> FragmentCellRanges) option" where
  "compute_max_overlap_fragment_cell_ranges s fragment_cell_ranges =
     (case (max_overlap_range_' s, range_global_tile_coords_' s) of
        (Some max_overlap_range, Some range_global_tile_coords) \<Rightarrow>
          (let S = array_schema s; n = dim_num S;
               g = concat (map (\<lambda>i.
                     [range_global_tile_coords ! i * tile_extents S ! i
                        + max_overlap_range ! (2 * i) + domain S ! (2 * i),
                      range_global_tile_coords ! i * tile_extents S ! i
                        + max_overlap_range ! (2 * i + 1) + domain S ! (2 * i)]) [0..<n])
           in if max_overlap_type_' s = FULL \<or> max_overlap_type_' s = PARTIAL_CONTIG then
                Some (TILEDB_ARS_OK,
                      fragment_cell_ranges @
                        [(max_overlap_i_' s,
                          (map (\<lambda>i. g ! (2 * i)) [0..<n], map (\<lambda>i. g ! (2 * i + 1)) [0..<n]))])
              else if n < 2 then Some (UNDEFINED_BEHAVIOUR, fragment_cell_ranges)
              else if cell_order S = TILEDB_AS_CO_ROW_MAJOR then
                map_option (Pair TILEDB_ARS_OK)
                  (row_slabs n g (max_overlap_i_' s) (map (\<lambda>i. g ! (2 * i)) [0..<n])
                     fragment_cell_ranges)
              else if cell_order S = TILEDB_AS_CO_COLUMN_MAJOR then
                map_option (Pair TILEDB_ARS_OK)
                  (col_slabs n g (max_overlap_i_' s) (map (\<lambda>i. g ! (2 * i)) [0..<n])
                     fragment_cell_ranges)
              else Some (UNDEFINED_BEHAVIOUR, fragment_cell_ranges))
      | _ \<Rightarrow> Some (UNDEFINED_BEHAVIOUR, fragment_cell_ranges))"

section \<open>Preparing the plan of the next tile\<close>

definition advance_fragment :: "'fs Fragment \<Rightarrow> 'fs Fragment" where
  "advance_fragment f = f\<lparr> fragment_state := get_next_overlapping_tile_mult f (fragment_state f) \<rparr>"

definition fragment_tile_coords :: "'fs Fragment \<Rightarrow> coords option" where
  "fragment_tile_coords f = get_global_tile_coords f (fragment_state f)"

text \<open>
  The loop of lines 559--569: the fragments that were on the previous tile move to
  their next overlapping tile.
\<close>

fun advance_processed ::
  "coords \<Rightarrow> 'fs Fragment list \<Rightarrow> coords option list
     \<Rightarrow> 'fs Fragment list \<times> coords option list" where
  "advance_processed previous (f # fs) (g # gs) =
     (case advance_processed previous fs gs of
        (fs', gs') \<Rightarrow>
          if g = Some previous
          then (advance_fragment f # fs', fragment_tile_coords (advance_fragment f) # gs')
          else (f # fs', g # gs'))"
| "advance_processed previous fs gs = (fs, gs)"

text \<open>
  The loop of lines 576--587: a sparse fragment that is behind the range's tile in tile
  order moves on until it is not. \<open>None\<close> is a fragment that never catches up.
\<close>

partial_function (option) advance_sparse ::
  "ArraySchema \<Rightarrow> coords \<Rightarrow> 'fs Fragment \<Rightarrow> coords option
     \<Rightarrow> ('fs Fragment \<times> coords option) option" where
  "advance_sparse S range_coords f g =
     (if \<not> dense f \<and>
         (case g of None \<Rightarrow> False | Some c \<Rightarrow> tile_order_cmp S c range_coords < 0)
      then advance_sparse S range_coords (advance_fragment f)
             (fragment_tile_coords (advance_fragment f))
      else Some (f, g))"

declare advance_sparse.simps [code]

fun advance_sparse_all ::
  "ArraySchema \<Rightarrow> coords \<Rightarrow> 'fs Fragment list \<Rightarrow> coords option list
     \<Rightarrow> ('fs Fragment list \<times> coords option list) option" where
  "advance_sparse_all S range_coords (f # fs) (g # gs) =
     (case advance_sparse S range_coords f g of
        None \<Rightarrow> None
      | Some (f', g') \<Rightarrow>
         (case advance_sparse_all S range_coords fs gs of
            None \<Rightarrow> None
          | Some (fs', gs') \<Rightarrow> Some (f' # fs', g' # gs')))"
| "advance_sparse_all S range_coords fs gs = Some (fs, gs)"

text \<open>
  Lines 594--606: the most recent fragment that is on the range's tile and reports the
  maximum overlap, or \<open>-1\<close>.
\<close>

definition find_max_overlap_i ::
  "'fs Fragment list \<Rightarrow> coords option list \<Rightarrow> coords \<Rightarrow> int list \<Rightarrow> int" where
  "find_max_overlap_i frags gs range_coords max_overlap_range =
     (case filter (\<lambda>i. gs ! i = Some range_coords \<and>
                        max_overlap (frags ! i) (fragment_state (frags ! i)) max_overlap_range)
             (rev [0..<length frags]) of
        [] \<Rightarrow> - 1
      | i # rest \<Rightarrow> int i)"

text \<open>
  Lines 615--625: the fragments after the one with the maximum overlap that are on the
  range's tile add their cell ranges.
\<close>

definition rest_fragment_cell_ranges ::
  "'fs Fragment list \<Rightarrow> coords option list \<Rightarrow> coords \<Rightarrow> int \<Rightarrow> FragmentCellRanges
     \<Rightarrow> FragmentCellRanges" where
  "rest_fragment_cell_ranges frags gs range_coords max_overlap_i unsorted =
     foldl (\<lambda>acc i.
        if gs ! i = Some range_coords
        then acc @ compute_fragment_cell_ranges (frags ! i) (fragment_state (frags ! i)) (int i)
        else acc)
       unsorted [nat (max_overlap_i + 1)..<length frags]"

text \<open>
  \<open>get_next_cell_ranges_dense<T>\<close>. The first invocation (no plan stored) initialises
  the tile cursor and moves every fragment to its first overlapping tile; a later one
  advances the cursor and the fragments that were on the previous tile. The run ends
  with \<open>done_\<close> set when the cursor is exhausted; otherwise the plan of the tile is
  computed, appended, and the clean-up runs. \<open>None\<close> is a run that does not end.
\<close>

definition get_next_cell_ranges_dense ::
  "'fs ArrayReadState \<Rightarrow> (status \<times> 'fs ArrayReadState) option" where
  "get_next_cell_ranges_dense s =
     (case (if fragment_cell_pos_ranges_vec_' s = []
            then map_option (Pair None)
                   (init_range_global_tile_coords (s\<lparr> max_overlap_range_' := Some [] \<rparr>))
            else (case range_global_tile_coords_' s of
                    None \<Rightarrow> None
                  | Some previous \<Rightarrow>
                      map_option (Pair (Some previous)) (get_next_range_global_tile_coords s)))
      of None \<Rightarrow> Some (UNDEFINED_BEHAVIOUR, s)
       | Some (previous_range_global_tile_coords, s1) \<Rightarrow>
          (case range_global_tile_coords_' s1 of
             None \<Rightarrow> Some (TILEDB_ARS_OK, s1\<lparr> done_' := True \<rparr>)
           | Some range_coords \<Rightarrow>
              (case (case previous_range_global_tile_coords of
                       None \<Rightarrow>
                         Some (map advance_fragment (fragments s1),
                               map (\<lambda>f. fragment_tile_coords (advance_fragment f)) (fragments s1))
                     | Some previous \<Rightarrow>
                         if length (fragment_global_tile_coords_' s1) \<noteq> length (fragments s1)
                         then None
                         else Some (advance_processed previous (fragments s1)
                                      (fragment_global_tile_coords_' s1)))
               of None \<Rightarrow> Some (UNDEFINED_BEHAVIOUR, s1)
                | Some (fs2, gs2) \<Rightarrow>
                   (case advance_sparse_all (array_schema s) range_coords fs2 gs2 of
                      None \<Rightarrow> None
                    | Some (fs3, gs3) \<Rightarrow>
                       (case compute_max_overlap_range
                               (s1\<lparr> fragments := fs3, fragment_global_tile_coords_' := gs3 \<rparr>) of
                          None \<Rightarrow> Some (UNDEFINED_BEHAVIOUR, s1)
                        | Some s4 \<Rightarrow>
                           (let s5 = s4\<lparr> max_overlap_i_' :=
                                           find_max_overlap_i fs3 gs3 range_coords
                                             (case max_overlap_range_' s4 of
                                                None \<Rightarrow> [] | Some r \<Rightarrow> r) \<rparr>
                            in case compute_max_overlap_fragment_cell_ranges s5 [] of
                                 None \<Rightarrow> None
                               | Some (rc0, unsorted0) \<Rightarrow>
                                  if rc0 \<noteq> TILEDB_ARS_OK then Some (rc0, s5)
                                  else
                                   (case compute_fragment_cell_pos_ranges s5
                                           (rest_fragment_cell_ranges fs3 gs3 range_coords
                                              (max_overlap_i_' s5) unsorted0) of
                                      None \<Rightarrow> None
                                    | Some (rc, fragment_cell_pos_ranges, flag) \<Rightarrow>
                                       if rc \<noteq> TILEDB_ARS_OK then Some (rc, s5)
                                       else
                                        (case clean_up_processed_fragment_cell_pos_ranges
                                                (s5\<lparr> fragment_cell_pos_ranges_vec_' :=
                                                        fragment_cell_pos_ranges_vec_' s5
                                                          @ [fragment_cell_pos_ranges] \<rparr>) of
                                           None \<Rightarrow> Some (UNDEFINED_BEHAVIOUR, s5)
                                         | Some s6 \<Rightarrow> Some (TILEDB_ARS_OK, s6)))))))))"

section \<open>The read loop of one attribute\<close>

text \<open>
  \<open>read_multiple_fragments_dense_attr<T>\<close>: the body of \<open>for(;;)\<close>, with the local
  \<open>buffer_offset\<close> as an argument (it is \<open>0\<close> when the function is entered). The result
  is the status, the state, the buffer and the value of \<open>buffer_size\<close> at the return: it
  is overwritten with \<open>buffer_offset\<close> on the two overflow returns and on the return at
  \<open>done_\<close>, and left as it was on an error return. The comparison of the signed position
  with the unsigned \<open>size()\<close> converts a negative position to a large unsigned value.
  \<open>None\<close> is a loop that does not end.
\<close>

partial_function (option) read_multiple_fragments_dense_attr_loop ::
  "int \<Rightarrow> nat \<Rightarrow> 'fs ArrayReadState \<Rightarrow> buffer \<Rightarrow> nat
     \<Rightarrow> (status \<times> 'fs ArrayReadState \<times> buffer \<times> nat) option" where
  "read_multiple_fragments_dense_attr_loop attribute_id buffer_size s buf buffer_offset =
     (case vec_at (tile_done_' s) attribute_id of
        None \<Rightarrow> Some (UNDEFINED_BEHAVIOUR, s, buf, buffer_size)
      | Some td \<Rightarrow>
         (case (if \<not> td then copy_cell_ranges attribute_id buf buffer_size buffer_offset s
                else (TILEDB_ARS_OK, s, buf, buffer_offset))
          of (rc1, s1, buf1, off1) \<Rightarrow>
            if rc1 \<noteq> TILEDB_ARS_OK then Some (rc1, s1, buf1, buffer_size)
            else
             (case vec_at (overflow_' s1) attribute_id of
                None \<Rightarrow> Some (UNDEFINED_BEHAVIOUR, s1, buf1, buffer_size)
              | Some ovf1 \<Rightarrow>
                 if ovf1 then Some (TILEDB_ARS_OK, s1, buf1, off1)
                 else
                 (case vec_at (fragment_cell_pos_ranges_vec_pos_' s1) attribute_id of
                    None \<Rightarrow> Some (UNDEFINED_BEHAVIOUR, s1, buf1, buffer_size)
                  | Some pos \<Rightarrow>
                     (case (if pos < 0 \<or> pos \<ge> int (length (fragment_cell_pos_ranges_vec_' s1))
                            then get_next_cell_ranges_dense s1
                            else Some (TILEDB_ARS_OK, s1)) of
                        None \<Rightarrow> None
                      | Some (rc2, s2) \<Rightarrow>
                         if rc2 \<noteq> TILEDB_ARS_OK then Some (rc2, s2, buf1, buffer_size)
                         else if done_' s2 then Some (TILEDB_ARS_OK, s2, buf1, off1)
                         else
                          (case copy_cell_ranges attribute_id buf1 buffer_size off1 s2
                           of (rc3, s3, buf3, off3) \<Rightarrow>
                             if rc3 \<noteq> TILEDB_ARS_OK then Some (rc3, s3, buf3, buffer_size)
                             else
                              (case vec_at (overflow_' s3) attribute_id of
                                 None \<Rightarrow> Some (UNDEFINED_BEHAVIOUR, s3, buf3, buffer_size)
                               | Some ovf3 \<Rightarrow>
                                   if ovf3 then Some (TILEDB_ARS_OK, s3, buf3, off3)
                                   else read_multiple_fragments_dense_attr_loop attribute_id
                                          buffer_size s3 buf3 off3)))))))"

declare read_multiple_fragments_dense_attr_loop.simps [code]

definition read_multiple_fragments_dense_attr ::
  "int \<Rightarrow> buffer \<Rightarrow> nat \<Rightarrow> 'fs ArrayReadState
     \<Rightarrow> (status \<times> 'fs ArrayReadState \<times> buffer \<times> nat) option" where
  "read_multiple_fragments_dense_attr attribute_id buf buffer_size s =
     read_multiple_fragments_dense_attr_loop attribute_id buffer_size s buf 0"

section \<open>The read call\<close>

text \<open>
  \<open>read_multiple_fragments_dense\<close>: the attributes are read one after the other, each
  into its own buffer; the loop stops at the first status that is not OK. The
  dispatch of \<open>read_multiple_fragments_dense_attr\<close> on the coordinate type is not
  modelled: coordinates are integers throughout. A variable-sized attribute goes to the
  stub. The status is optional because \<open>rc\<close> is declared without a value: \<open>None\<close> is
  the \<open>rc\<close> returned when no attribute is requested.
\<close>

fun read_multiple_fragments_dense_loop ::
  "int list \<Rightarrow> nat \<Rightarrow> status option \<Rightarrow> 'fs ArrayReadState \<Rightarrow> buffer list \<Rightarrow> nat list
     \<Rightarrow> (status option \<times> 'fs ArrayReadState \<times> buffer list \<times> nat list) option" where
  "read_multiple_fragments_dense_loop [] buffer_i rc s buffers buffer_sizes =
     Some (rc, s, buffers, buffer_sizes)"
| "read_multiple_fragments_dense_loop (attribute_id # rest) buffer_i rc s buffers buffer_sizes =
     (if \<not> var_size (array_schema s) attribute_id then
        (if length buffers \<le> buffer_i \<or> length buffer_sizes \<le> buffer_i
         then Some (Some UNDEFINED_BEHAVIOUR, s, buffers, buffer_sizes)
         else
           (case read_multiple_fragments_dense_attr attribute_id (buffers ! buffer_i)
                   (buffer_sizes ! buffer_i) s of
              None \<Rightarrow> None
            | Some (rc1, s1, buf1, size1) \<Rightarrow>
                if rc1 \<noteq> TILEDB_ARS_OK
                then Some (Some rc1, s1, buffers[buffer_i := buf1], buffer_sizes[buffer_i := size1])
                else read_multiple_fragments_dense_loop rest (buffer_i + 1) (Some rc1) s1
                       (buffers[buffer_i := buf1]) (buffer_sizes[buffer_i := size1])))
      else
        (if length buffers \<le> buffer_i + 1 \<or> length buffer_sizes \<le> buffer_i + 1
         then Some (Some UNDEFINED_BEHAVIOUR, s, buffers, buffer_sizes)
         else
           (case read_multiple_fragments_dense_attr_var s attribute_id (buffers ! buffer_i)
                   (buffer_sizes ! buffer_i) (buffers ! (buffer_i + 1))
                   (buffer_sizes ! (buffer_i + 1)) of
              (rc1, s1, buf1, size1, buf_var1, size_var1) \<Rightarrow>
                if rc1 \<noteq> TILEDB_ARS_OK
                then Some (Some rc1, s1,
                           buffers[buffer_i := buf1, buffer_i + 1 := buf_var1],
                           buffer_sizes[buffer_i := size1, buffer_i + 1 := size_var1])
                else read_multiple_fragments_dense_loop rest (buffer_i + 2) (Some rc1) s1
                       (buffers[buffer_i := buf1, buffer_i + 1 := buf_var1])
                       (buffer_sizes[buffer_i := size1, buffer_i + 1 := size_var1]))))"

definition read_multiple_fragments_dense ::
  "'fs ArrayReadState \<Rightarrow> buffer list \<Rightarrow> nat list
     \<Rightarrow> (status option \<times> 'fs ArrayReadState \<times> buffer list \<times> nat list) option" where
  "read_multiple_fragments_dense s buffers buffer_sizes =
     read_multiple_fragments_dense_loop (attribute_ids s) 0 None s buffers buffer_sizes"

text \<open>
  \<open>read_multiple_fragments\<close>: the overflow flags and \<open>done_\<close> are reset, every fragment
  resets its own overflow flags, and the schema decides between the dense and the sparse
  path. The assertion that there is a fragment gives \<open>UNDEFINED_BEHAVIOUR\<close> when it fails.
\<close>

definition read_multiple_fragments ::
  "'fs ArrayReadState \<Rightarrow> buffer list \<Rightarrow> nat list
     \<Rightarrow> (status option \<times> 'fs ArrayReadState \<times> buffer list \<times> nat list) option" where
  "read_multiple_fragments s buffers buffer_sizes =
     (if fragments s = [] then Some (Some UNDEFINED_BEHAVIOUR, s, buffers, buffer_sizes)
      else
        (let s1 = s\<lparr> overflow_' := replicate (attribute_num (array_schema s) + 1) False,
                      done_' := False,
                      fragments := map (\<lambda>f. f\<lparr> fragment_state := reset_overflow f (fragment_state f) \<rparr>)
                                     (fragments s) \<rparr>
         in if array_dense (array_schema s1)
            then read_multiple_fragments_dense s1 buffers buffer_sizes
            else (case read_multiple_fragments_sparse s1 buffers buffer_sizes of
                    (rc, s2, buffers2, buffer_sizes2) \<Rightarrow>
                      Some (Some rc, s2, buffers2, buffer_sizes2))))"

section \<open>What the merge is measured against\<close>

text \<open>
  The contract the read state relies on from the schema, for the cells \<open>C\<close> of one
  tile and a position function \<open>P\<close> on them: \<open>cell_order_cmp\<close> compares cells as \<open>P\<close>
  compares their positions, positions identify cells, and the next and the previous
  cell of a cell that is not the last or the first one of the tile is the cell of the
  tile at the next or the previous position.
\<close>

definition cell_order_contract ::
  "ArraySchema \<Rightarrow> int list \<Rightarrow> coords set \<Rightarrow> (coords \<Rightarrow> int) \<Rightarrow> bool" where
  "cell_order_contract S tile_domain C P \<longleftrightarrow>
     (\<forall>a\<in>C. \<forall>b\<in>C.
        (cell_order_cmp S a b < 0 \<longleftrightarrow> P a < P b) \<and>
        (cell_order_cmp S a b > 0 \<longleftrightarrow> P b < P a) \<and>
        (P a = P b \<longrightarrow> a = b) \<and>
        (P a < P b \<longrightarrow>
           get_next_cell_coords S tile_domain a \<in> C \<and>
           P (get_next_cell_coords S tile_domain a) = P a + 1) \<and>
        (P b < P a \<longrightarrow>
           get_previous_cell_coords S tile_domain a \<in> C \<and>
           P (get_previous_cell_coords S tile_domain a) = P a - 1))"

text \<open>
  The position of a cell in its tile, as the second part of
  \<open>compute_fragment_cell_pos_ranges\<close> computes it: the coordinates are moved to the tile's
  origin and handed to \<open>get_cell_pos\<close>.
\<close>

definition tile_pos :: "ArraySchema \<Rightarrow> int list \<Rightarrow> coords \<Rightarrow> int" where
  "tile_pos S tile_domain c = get_cell_pos S (normalize_coords S tile_domain c)"

text \<open>
  The ends of a range as positions; a range \<open>covers\<close> the positions between them. A
  well-formed range of a dense fragment has both ends in the tile, is not empty, and
  carries the id of a fragment that exists and is dense. \<open>frag_disjoint\<close>: no range
  occurs twice and two ranges of the same fragment do not overlap.
\<close>

definition range_lo :: "(coords \<Rightarrow> int) \<Rightarrow> FragmentCellRange \<Rightarrow> int" where
  "range_lo P r = P (fst (snd r))"

definition range_hi :: "(coords \<Rightarrow> int) \<Rightarrow> FragmentCellRange \<Rightarrow> int" where
  "range_hi P r = P (snd (snd r))"

definition covers :: "(coords \<Rightarrow> int) \<Rightarrow> FragmentCellRange \<Rightarrow> int \<Rightarrow> bool" where
  "covers P r p \<longleftrightarrow> range_lo P r \<le> p \<and> p \<le> range_hi P r"

definition dense_range ::
  "'fs Fragment list \<Rightarrow> coords set \<Rightarrow> (coords \<Rightarrow> int) \<Rightarrow> FragmentCellRange \<Rightarrow> bool" where
  "dense_range frags C P r \<longleftrightarrow>
     fst (snd r) \<in> C \<and> snd (snd r) \<in> C \<and> range_lo P r \<le> range_hi P r \<and>
     (case vec_at frags (fst r) of None \<Rightarrow> False | Some f \<Rightarrow> dense f)"

definition frag_disjoint :: "(coords \<Rightarrow> int) \<Rightarrow> FragmentCellRanges \<Rightarrow> bool" where
  "frag_disjoint P L \<longleftrightarrow>
     distinct L \<and>
     (\<forall>a\<in>set L. \<forall>b\<in>set L. a \<noteq> b \<and> fst a = fst b \<longrightarrow>
        range_hi P a < range_lo P b \<or> range_hi P b < range_lo P a)"

text \<open>
  \<open>winner P L p\<close> is the highest fragment id among the ranges of \<open>L\<close> that cover
  position \<open>p\<close>, and \<open>None\<close> when no range covers it.
\<close>

fun newer :: "int option \<Rightarrow> int option \<Rightarrow> int option" where
  "newer None y = y"
| "newer (Some a) None = Some a"
| "newer (Some a) (Some b) = Some (max a b)"

fun winner :: "(coords \<Rightarrow> int) \<Rightarrow> FragmentCellRanges \<Rightarrow> int \<Rightarrow> int option" where
  "winner P [] p = None"
| "winner P (r # rs) p = (if covers P r p then newer (Some (fst r)) (winner P rs p) else winner P rs p)"

text \<open>
  The cells a plan delivers, in the order in which \<open>copy_cell_ranges\<close> asks for them:
  for every entry, the fragment id paired with each position from the first to the last.
\<close>

definition plan_cells :: "FragmentCellPosRanges \<Rightarrow> (int \<times> int) list" where
  "plan_cells plan = concat (map (\<lambda>(f, (a, b)). map (Pair f) [a..b]) plan)"

text \<open>
  \<open>pops_before\<close> is the order in which the heap hands out ranges, in terms of
  positions; \<open>total_cells\<close> counts the cells of the ranges in the heap.
\<close>

definition pops_before :: "(coords \<Rightarrow> int) \<Rightarrow> FragmentCellRange \<Rightarrow> FragmentCellRange \<Rightarrow> bool" where
  "pops_before P a b \<longleftrightarrow>
     range_lo P a < range_lo P b \<or> (range_lo P a = range_lo P b \<and> fst b \<le> fst a)"

definition total_cells :: "(coords \<Rightarrow> int) \<Rightarrow> FragmentCellRanges \<Rightarrow> nat" where
  "total_cells P L = sum_list (map (\<lambda>r. nat (range_hi P r - range_lo P r + 1)) L)"

section \<open>A one-dimensional schema for concrete runs\<close>

text \<open>
  Modelled from the spec: the schema helpers are not part of \<open>array_read_state.cc\<close>.
  For a row-major array the spec's cell order is the lexicographic order of the
  coordinates, the next and previous cells increment and decrement in that order within
  the tile domain, and the cell position is the rank in the tile. \<open>schema_1d\<close> is the
  one-dimensional instance (domain \<open>[0, 9]\<close>, one tile of extent 10), where these are
  comparison, successor, predecessor and the coordinate itself.
\<close>

fun row_major_cmp :: "coords \<Rightarrow> coords \<Rightarrow> int" where
  "row_major_cmp (x # xs) (y # ys) =
     (if x < y then - 1 else if x > y then 1 else row_major_cmp xs ys)"
| "row_major_cmp xs ys = 0"

definition schema_1d :: ArraySchema where
  "schema_1d =
     \<lparr> dim_num = 1, attribute_num = 2, cell_order = TILEDB_AS_CO_ROW_MAJOR,
       tile_extents = [10], domain = [0, 9],
       cell_order_cmp = row_major_cmp,
       get_next_cell_coords = (\<lambda>tile_domain c. [hd c + 1]),
       get_previous_cell_coords = (\<lambda>tile_domain c. [hd c - 1]),
       get_cell_pos = (\<lambda>c. hd c),
       get_next_tile_coords = (\<lambda>tile_domain c. [hd c + 1]),
       tile_order_cmp = row_major_cmp,
       array_dense = True,
       var_size = (\<lambda>a. False) \<rparr>"

text \<open>
  Modelled from the spec: the array of the spec's end-to-end scenarios, two-dimensional
  over the domain \<open>[0,9] \<times> [0,9]\<close> with tile extent \<open>5 \<times> 5\<close>. Only the data members are
  used where this schema appears; the helper fields are placeholders.
\<close>

definition schema_2d :: "CellOrder \<Rightarrow> ArraySchema" where
  "schema_2d order =
     \<lparr> dim_num = 2, attribute_num = 2, cell_order = order,
       tile_extents = [5, 5], domain = [0, 9, 0, 9],
       cell_order_cmp = row_major_cmp,
       get_next_cell_coords = (\<lambda>tile_domain c. c),
       get_previous_cell_coords = (\<lambda>tile_domain c. c),
       get_cell_pos = (\<lambda>c. 0),
       get_next_tile_coords = (\<lambda>tile_domain c. c),
       tile_order_cmp = row_major_cmp,
       array_dense = True,
       var_size = (\<lambda>a. False) \<rparr>"

text \<open>
  A read state over that array with no fragment attached, as it stands when the tile
  cursor is at \<open>tc\<close>: the requested attributes, the query range and the cursor are the
  parameters.
\<close>

definition state_2d :: "CellOrder \<Rightarrow> int list \<Rightarrow> int list \<Rightarrow> coords \<Rightarrow> unit ArrayReadState" where
  "state_2d order ids rng tc =
     \<lparr> array_schema = schema_2d order, attribute_ids = ids, array_range = rng,
       fragments = [], done_' = False, fragment_cell_pos_ranges_vec_' = [],
       fragment_cell_pos_ranges_vec_pos_' = [0, 0, 0], fragment_global_tile_coords_' = [],
       max_overlap_i_' = - 1, max_overlap_range_' = Some [0, 0, 0, 0],
       max_overlap_type_' = FULL, overflow_' = [False, False, False],
       range_global_tile_coords_' = Some tc, range_global_tile_domain_' = Some [0, 1, 0, 1],
       tile_done_' = [True, True] \<rparr>"

text \<open>
  Modelled from the spec: fragments over the one-dimensional array, with no internal
  state. A dense fragment stores every cell of its tile. A sparse fragment stores the
  cells listed in \<open>cells\<close> (in cell order): \<open>coords_exist\<close> is membership,
  \<open>get_first_two_coords\<close> gives the first two stored cells at or after the start (and
  fails when there are not two), and \<open>get_cell_pos_ranges_sparse\<close> gives one position
  range per stored cell of the range. The members not used by the merge do nothing.
\<close>

definition dense_fragment :: "unit Fragment" where
  "dense_fragment =
     \<lparr> fragment_state = (), dense = True,
       coords_exist = (\<lambda>st c. True),
       get_first_two_coords = (\<lambda>st c. Some (c, [hd c + 1])),
       get_cell_pos_ranges_sparse = (\<lambda>st i td r. None),
       max_overlap = (\<lambda>st r. True),
       compute_fragment_cell_ranges = (\<lambda>st i. []),
       get_next_overlapping_tile_mult = (\<lambda>st. st),
       get_global_tile_coords = (\<lambda>st. None),
       copy_cell_range = (\<lambda>st a b n off r. (True, st, b, off)),
       overflow = (\<lambda>st a. False),
       reset_overflow = (\<lambda>st. st),
       tile_done = (\<lambda>st a. st) \<rparr>"

definition sparse_fragment :: "int list \<Rightarrow> unit Fragment" where
  "sparse_fragment cells =
     \<lparr> fragment_state = (), dense = False,
       coords_exist = (\<lambda>st c. hd c \<in> set cells),
       get_first_two_coords = (\<lambda>st c.
          (case filter (\<lambda>x. hd c \<le> x) cells of
             x # y # rest \<Rightarrow> Some ([x], [y])
           | _ \<Rightarrow> None)),
       get_cell_pos_ranges_sparse = (\<lambda>st i td r.
          Some (map (\<lambda>x. (i, (x, x)))
                  (filter (\<lambda>x. hd (fst r) \<le> x \<and> x \<le> hd (snd r)) cells))),
       max_overlap = (\<lambda>st r. False),
       compute_fragment_cell_ranges = (\<lambda>st i. []),
       get_next_overlapping_tile_mult = (\<lambda>st. st),
       get_global_tile_coords = (\<lambda>st. None),
       copy_cell_range = (\<lambda>st a b n off r. (True, st, b, off)),
       overflow = (\<lambda>st a. False),
       reset_overflow = (\<lambda>st. st),
       tile_done = (\<lambda>st a. st) \<rparr>"

text \<open>
  The read state over the one-dimensional array with the fragments \<open>fs\<close>, the query
  range being the whole domain and the tile cursor on the only tile.
\<close>

definition state_1d :: "'fs Fragment list \<Rightarrow> 'fs ArrayReadState" where
  "state_1d fs =
     \<lparr> array_schema = schema_1d, attribute_ids = [0], array_range = [0, 9],
       fragments = fs, done_' = False, fragment_cell_pos_ranges_vec_' = [],
       fragment_cell_pos_ranges_vec_pos_' = [0, 0, 0],
       fragment_global_tile_coords_' = map (\<lambda>f. Some [0]) fs,
       max_overlap_i_' = 0, max_overlap_range_' = Some [0, 9],
       max_overlap_type_' = FULL, overflow_' = [False, False, False],
       range_global_tile_coords_' = Some [0], range_global_tile_domain_' = Some [0, 0],
       tile_done_' = [True, True] \<rparr>"

text \<open>
  Modelled from the spec: a dense fragment over the one-dimensional array that copies
  cells, one buffer slot per cell, the cell at position \<open>p\<close> holding \<open>base + p\<close>. Its
  state keeps, per attribute, the overflow flag and the position in the tile up to which
  cells have been delivered. A copy of a range starts at that position when it lies
  inside the range, writes as many cells as the buffer still holds, and reports overflow
  when cells of the range are left. \<open>overflow_state\<close> is the read state with this
  fragment and the plan of the tile computed: the whole tile comes from fragment \<open>0\<close>.
\<close>

record copy_state =
  cs_overflow :: "bool list"
  cs_offset :: "int list"

definition cell_copy ::
  "int \<Rightarrow> copy_state \<Rightarrow> int \<Rightarrow> buffer \<Rightarrow> nat \<Rightarrow> nat \<Rightarrow> CellPosRange
     \<Rightarrow> bool \<times> copy_state \<times> buffer \<times> nat" where
  "cell_copy base st a buf n off r =
     (let start = max (fst r) (cs_offset st ! nat a);
          wanted = nat (snd r - start + 1);
          k = min wanted (n - off)
      in (True,
          st\<lparr> cs_overflow := (cs_overflow st)[nat a := k < wanted],
              cs_offset := (cs_offset st)[nat a := start + int k] \<rparr>,
          take off buf @ map (\<lambda>i. base + start + int i) [0..<k] @ drop (off + k) buf,
          off + k))"

definition copying_fragment :: "int \<Rightarrow> copy_state Fragment" where
  "copying_fragment base =
     \<lparr> fragment_state = \<lparr> cs_overflow = [False, False, False], cs_offset = [0, 0, 0] \<rparr>,
       dense = True,
       coords_exist = (\<lambda>st c. True),
       get_first_two_coords = (\<lambda>st c. Some (c, [hd c + 1])),
       get_cell_pos_ranges_sparse = (\<lambda>st i td r. None),
       max_overlap = (\<lambda>st r. True),
       compute_fragment_cell_ranges = (\<lambda>st i. []),
       get_next_overlapping_tile_mult = (\<lambda>st. st),
       get_global_tile_coords = (\<lambda>st. Some [0]),
       copy_cell_range = cell_copy base,
       overflow = (\<lambda>st a. cs_overflow st ! nat a),
       reset_overflow = (\<lambda>st. st\<lparr> cs_overflow := map (\<lambda>b. False) (cs_overflow st) \<rparr>),
       tile_done = (\<lambda>st a. st\<lparr> cs_offset := (cs_offset st)[nat a := 0] \<rparr>) \<rparr>"


text \<open>
  The cells of the only tile of the one-dimensional array, and the read state of that
  array before the first read call, with the copying fragment as its only fragment and
  the attributes \<open>ids\<close> requested.
\<close>

definition tile_cells_1d :: "coords set" where
  "tile_cells_1d = (\<lambda>x. [x]) ` {0..9}"

definition fresh_state :: "int list \<Rightarrow> copy_state ArrayReadState" where
  "fresh_state ids =
     \<lparr> array_schema = schema_1d, attribute_ids = ids, array_range = [0, 9],
       fragments = [copying_fragment 100], done_' = False, fragment_cell_pos_ranges_vec_' = [],
       fragment_cell_pos_ranges_vec_pos_' = [0, 0, 0],
       fragment_global_tile_coords_' = [],
       max_overlap_i_' = - 1, max_overlap_range_' = None,
       max_overlap_type_' = FULL, overflow_' = [],
       range_global_tile_coords_' = None, range_global_tile_domain_' = None,
       tile_done_' = [True, True] \<rparr>"

text \<open>
  Modelled from the spec: the same array declared sparse, and the same array with
  attribute \<open>0\<close> declared variable-sized; each with the copying fragment and before the
  first read call.
\<close>

definition sparse_array_state :: "copy_state ArrayReadState" where
  "sparse_array_state =
     (fresh_state [0]) \<lparr> array_schema := schema_1d \<lparr> array_dense := False \<rparr> \<rparr>"

definition var_attribute_state :: "copy_state ArrayReadState" where
  "var_attribute_state =
     (fresh_state [0, 1]) \<lparr> array_schema := schema_1d \<lparr> var_size := (\<lambda>a. a = 0) \<rparr> \<rparr>"



section \<open>The comparator realises the pop order\<close>

lemma pq_top_pair:
  "pq_top lt [x, y] = Some (if lt x y then y else x)"
  by (simp add: pq_top_def)

text \<open>
  Claim C3. For two fragment cell ranges \<open>a\<close> and \<open>b\<close> whose first endpoints the
  schema's comparator orders consistently in both directions: when \<open>a\<close>'s first endpoint
  is earlier in cell order, \<open>a\<close> is the top of the priority queue holding the two
  (whichever was pushed first); when the first endpoints compare equal and \<open>a\<close> has the
  higher fragment id, \<open>a\<close> is the top.
\<close>

theorem SmallerFragmentCellRange_pop_order:
  assumes "cell_order_cmp S (fst (snd b)) (fst (snd a)) > 0
             \<longleftrightarrow> cell_order_cmp S (fst (snd a)) (fst (snd b)) < 0"
    and "cell_order_cmp S (fst (snd b)) (fst (snd a)) = 0
             \<longleftrightarrow> cell_order_cmp S (fst (snd a)) (fst (snd b)) = 0"
    and "cell_order_cmp S (fst (snd a)) (fst (snd b)) < 0
         \<or> (cell_order_cmp S (fst (snd a)) (fst (snd b)) = 0 \<and> fst b < fst a)"
  shows "pq_top (SmallerFragmentCellRange S) (pq_push b (pq_push a [])) = Some a
       \<and> pq_top (SmallerFragmentCellRange S) (pq_push a (pq_push b [])) = Some a"
  using assms
  by (auto simp: pq_push_def pq_top_pair SmallerFragmentCellRange_def Let_def)

theorem SmallerFragmentCellRange_pop_order_witness:
  "pq_top (SmallerFragmentCellRange schema_1d)
      (pq_push (0, [5], [9]) (pq_push (1, [2], [7]) [])) = Some (1, [2], [7])
   \<and> pq_top (SmallerFragmentCellRange schema_1d)
      (pq_push (1, [2], [7]) (pq_push (0, [5], [9]) [])) = Some (1, [2], [7])
   \<and> pq_top (SmallerFragmentCellRange schema_1d)
      (pq_push (0, [2], [9]) (pq_push (1, [2], [7]) [])) = Some (1, [2], [7])
   \<and> pq_top (SmallerFragmentCellRange schema_1d)
      (pq_push (1, [2], [7]) (pq_push (0, [2], [9]) [])) = Some (1, [2], [7])"
  using SmallerFragmentCellRange_pop_order [of schema_1d "(0, [5], [9])" "(1, [2], [7])"]
    SmallerFragmentCellRange_pop_order [of schema_1d "(0, [2], [9])" "(1, [2], [7])"]
  by (simp add: schema_1d_def)

section \<open>Classification of the overlap\<close>

lemma overlap_loop_eq:
  "overlap_loop p is t = (if \<exists>i\<in>set is. p i then PARTIAL_NON_CONTIG else t)"
  by (induction "is") auto

lemma concat_pairs_nth:
  "i < n \<Longrightarrow> concat (map (\<lambda>i. [f i, g i]) [0..<n]) ! (2 * i) = f i
     \<and> concat (map (\<lambda>i. [f i, g i]) [0..<n]) ! (2 * i + 1) = g i"
proof (induction n)
  case 0
  then show ?case by simp
next
  case (Suc n)
  have len: "length (concat (map (\<lambda>i. [f i, g i]) [0..<n])) = 2 * n"
    by (induction n) auto
  show ?case
  proof (cases "i < n")
    case True
    with Suc.IH len show ?thesis by (simp add: nth_append)
  next
    case False
    with Suc.prems have "i = n" by simp
    with len show ?thesis by (simp add: nth_append)
  qed
qed

lemma max_overlap_range_T_nth:
  assumes "i < dim_num S"
  shows "max_overlap_range_T S rng tc ! (2 * i)
           = max (rng ! (2 * i) - (tc ! i * tile_extents S ! i + domain S ! (2 * i))) 0"
    and "max_overlap_range_T S rng tc ! (2 * i + 1)
           = min (rng ! (2 * i + 1) - (tc ! i * tile_extents S ! i + domain S ! (2 * i)))
                 (tile_extents S ! i - 1)"
  using concat_pairs_nth [OF assms,
      of "\<lambda>i. max (rng ! (2 * i) - (tc ! i * tile_extents S ! i + domain S ! (2 * i))) 0"
         "\<lambda>i. min (rng ! (2 * i + 1) - (tc ! i * tile_extents S ! i + domain S ! (2 * i)))
                 (tile_extents S ! i - 1)"]
  by (simp_all add: max_overlap_range_T_def Let_def)

lemma max_overlap_type_T_cases:
  fixes S :: ArraySchema and r :: "int list"
  defines "spans \<equiv> \<lambda>i. r ! (2 * i) = 0 \<and> r ! (2 * i + 1) = tile_extents S ! i - 1"
  shows "(max_overlap_type_T S r = FULL \<longleftrightarrow> (\<forall>i<dim_num S. spans i))
       \<and> (cell_order S = TILEDB_AS_CO_ROW_MAJOR \<longrightarrow>
            (max_overlap_type_T S r = PARTIAL_CONTIG \<longleftrightarrow>
               \<not> (\<forall>i<dim_num S. spans i) \<and> (\<forall>i. 1 \<le> i \<and> i < dim_num S \<longrightarrow> spans i))
          \<and> (max_overlap_type_T S r = PARTIAL_NON_CONTIG \<longleftrightarrow>
               \<not> (\<forall>i. 1 \<le> i \<and> i < dim_num S \<longrightarrow> spans i)))
       \<and> (cell_order S = TILEDB_AS_CO_COLUMN_MAJOR \<longrightarrow>
            (max_overlap_type_T S r = PARTIAL_CONTIG \<longleftrightarrow>
               \<not> (\<forall>i<dim_num S. spans i) \<and> (\<forall>i. i + 1 < dim_num S \<longrightarrow> spans i))
          \<and> (max_overlap_type_T S r = PARTIAL_NON_CONTIG \<longleftrightarrow>
               \<not> (\<forall>i. i + 1 < dim_num S \<longrightarrow> spans i)))"
  unfolding max_overlap_type_T_def overlap_loop_eq spans_def Let_def not_full_extent_def
  by (auto simp: less_diff_conv)

text \<open>
  Claim C6. After \<open>compute_max_overlap_range\<close>, the stored range \<open>r\<close> is, per dimension,
  the query range relative to the tile's origin clipped to \<open>[0, e\<^sub>i - 1]\<close>, and the
  stored type is \<open>FULL\<close> exactly when \<open>r\<close> spans \<open>[0, e\<^sub>i - 1]\<close> on every dimension.
  For a row-major schema the type is \<open>PARTIAL_CONTIG\<close> exactly when it is not full and
  every dimension but the first is spanned, and \<open>PARTIAL_NON_CONTIG\<close> exactly when some
  dimension other than the first is not spanned; for a column-major schema the same
  holds with the last dimension in place of the first.
\<close>

theorem compute_max_overlap_range_classification:
  fixes s s' :: "'fs ArrayReadState"
  assumes "compute_max_overlap_range s = Some s'"
  defines "S \<equiv> array_schema s"
  defines "spans \<equiv> \<lambda>r i. r ! (2 * i) = 0 \<and> r ! (2 * i + 1) = tile_extents S ! i - 1"
  shows "\<exists>r tc. max_overlap_range_' s' = Some r \<and> range_global_tile_coords_' s = Some tc
       \<and> (\<forall>i<dim_num S.
             r ! (2 * i) = max (array_range s ! (2 * i)
                                 - (tc ! i * tile_extents S ! i + domain S ! (2 * i))) 0
           \<and> r ! (2 * i + 1) = min (array_range s ! (2 * i + 1)
                                 - (tc ! i * tile_extents S ! i + domain S ! (2 * i)))
                                   (tile_extents S ! i - 1))
       \<and> (max_overlap_type_' s' = FULL \<longleftrightarrow> (\<forall>i<dim_num S. spans r i))
       \<and> (cell_order S = TILEDB_AS_CO_ROW_MAJOR \<longrightarrow>
            (max_overlap_type_' s' = PARTIAL_CONTIG \<longleftrightarrow>
               \<not> (\<forall>i<dim_num S. spans r i) \<and> (\<forall>i. 1 \<le> i \<and> i < dim_num S \<longrightarrow> spans r i))
          \<and> (max_overlap_type_' s' = PARTIAL_NON_CONTIG \<longleftrightarrow>
               \<not> (\<forall>i. 1 \<le> i \<and> i < dim_num S \<longrightarrow> spans r i)))
       \<and> (cell_order S = TILEDB_AS_CO_COLUMN_MAJOR \<longrightarrow>
            (max_overlap_type_' s' = PARTIAL_CONTIG \<longleftrightarrow>
               \<not> (\<forall>i<dim_num S. spans r i) \<and> (\<forall>i. i + 1 < dim_num S \<longrightarrow> spans r i))
          \<and> (max_overlap_type_' s' = PARTIAL_NON_CONTIG \<longleftrightarrow>
               \<not> (\<forall>i. i + 1 < dim_num S \<longrightarrow> spans r i)))"
proof -
  from assms(1) obtain r0 tc where
    m: "max_overlap_range_' s = Some r0" and t: "range_global_tile_coords_' s = Some tc"
    by (auto simp: compute_max_overlap_range_def split: option.splits)
  define r where "r = max_overlap_range_T S (array_range s) tc"
  from assms(1) m t have s': "s' = s\<lparr> max_overlap_range_' := Some r,
                       max_overlap_type_' := max_overlap_type_T S r \<rparr>"
    by (simp add: compute_max_overlap_range_def Let_def r_def S_def)
  have ty: "max_overlap_type_' s' = max_overlap_type_T S r"
    and mr: "max_overlap_range_' s' = Some r"
    by (simp_all add: s')
  have nth: "\<forall>i<dim_num S.
             r ! (2 * i) = max (array_range s ! (2 * i)
                                 - (tc ! i * tile_extents S ! i + domain S ! (2 * i))) 0
           \<and> r ! (2 * i + 1) = min (array_range s ! (2 * i + 1)
                                 - (tc ! i * tile_extents S ! i + domain S ! (2 * i)))
                                   (tile_extents S ! i - 1)"
    unfolding r_def using max_overlap_range_T_nth [of _ S "array_range s" tc] by blast
  have cls: "(max_overlap_type_' s' = FULL \<longleftrightarrow> (\<forall>i<dim_num S. spans r i))
       \<and> (cell_order S = TILEDB_AS_CO_ROW_MAJOR \<longrightarrow>
            (max_overlap_type_' s' = PARTIAL_CONTIG \<longleftrightarrow>
               \<not> (\<forall>i<dim_num S. spans r i) \<and> (\<forall>i. 1 \<le> i \<and> i < dim_num S \<longrightarrow> spans r i))
          \<and> (max_overlap_type_' s' = PARTIAL_NON_CONTIG \<longleftrightarrow>
               \<not> (\<forall>i. 1 \<le> i \<and> i < dim_num S \<longrightarrow> spans r i)))
       \<and> (cell_order S = TILEDB_AS_CO_COLUMN_MAJOR \<longrightarrow>
            (max_overlap_type_' s' = PARTIAL_CONTIG \<longleftrightarrow>
               \<not> (\<forall>i<dim_num S. spans r i) \<and> (\<forall>i. i + 1 < dim_num S \<longrightarrow> spans r i))
          \<and> (max_overlap_type_' s' = PARTIAL_NON_CONTIG \<longleftrightarrow>
               \<not> (\<forall>i. i + 1 < dim_num S \<longrightarrow> spans r i)))"
    unfolding ty spans_def using max_overlap_type_T_cases [of S r] by blast
  from mr t nth cls show ?thesis by blast
qed

lemma compute_max_overlap_range_row_run:
  "compute_max_overlap_range (state_2d TILEDB_AS_CO_ROW_MAJOR [0] [1, 3, 0, 9] [0, 1])
   = Some ((state_2d TILEDB_AS_CO_ROW_MAJOR [0] [1, 3, 0, 9] [0, 1])
        \<lparr> max_overlap_range_' := Some [1, 3, 0, 4], max_overlap_type_' := PARTIAL_CONTIG \<rparr>)"
  by (simp add: compute_max_overlap_range_def state_2d_def schema_2d_def max_overlap_range_T_def
      max_overlap_type_T_def not_full_extent_def Let_def upt_rec)

theorem compute_max_overlap_range_classification_witness:
  "compute_max_overlap_range (state_2d TILEDB_AS_CO_ROW_MAJOR [0] [1, 3, 0, 9] [0, 1])
   = Some ((state_2d TILEDB_AS_CO_ROW_MAJOR [0] [1, 3, 0, 9] [0, 1])
        \<lparr> max_overlap_range_' := Some [1, 3, 0, 4], max_overlap_type_' := PARTIAL_CONTIG \<rparr>)
   \<and> max_overlap_type_' ((state_2d TILEDB_AS_CO_ROW_MAJOR [0] [1, 3, 0, 9] [0, 1])
        \<lparr> max_overlap_range_' := Some [1, 3, 0, 4], max_overlap_type_' := PARTIAL_CONTIG \<rparr>)
      \<noteq> FULL"
  using compute_max_overlap_range_classification [OF compute_max_overlap_range_row_run]
    compute_max_overlap_range_row_run
  by simp

section \<open>The clean-up step on a state it can meet\<close>

text \<open>
  The state \<open>clean_up_state\<close>: attributes \<open>1\<close> and \<open>0\<close> are requested, in that order.
  Attribute \<open>1\<close> overflowed inside the plan of the first tile (position \<open>0\<close>); attribute
  \<open>0\<close> finished that plan (position \<open>1\<close>) and asked for the next tile, whose plan has
  just been appended. This is the state in which \<open>get_next_cell_ranges_dense\<close> calls the
  clean-up.
\<close>

definition clean_up_state :: "unit ArrayReadState" where
  "clean_up_state =
     (state_2d TILEDB_AS_CO_ROW_MAJOR [1, 0] [0, 9, 0, 9] [0, 1])
       \<lparr> fragment_cell_pos_ranges_vec_' := [[(0, (0, 24))], [(0, (0, 24))]],
         fragment_cell_pos_ranges_vec_pos_' := [1, 0, 0],
         overflow_' := [False, True, False],
         tile_done_' := [True, False] \<rparr>"

text \<open>
  Claim C7, at \<open>clean_up_state\<close>. The requested attribute \<open>1\<close> is at position \<open>0\<close>, so
  no plan is finished for every requested attribute and the claim asks that nothing be
  removed. The code takes \<open>min_pos\<close> from entry \<open>0\<close> of the position vector and from
  \<open>attribute_ids[1]\<close>, never from \<open>attribute_ids[0]\<close>, finds \<open>1\<close>, and removes the first
  plan, which attribute \<open>1\<close> has not finished.
\<close>

theorem clean_up_removes_unfinished_plan:
  "vec_at (fragment_cell_pos_ranges_vec_pos_' clean_up_state) (hd (attribute_ids clean_up_state)) = Some 0
   \<and> clean_up_processed_fragment_cell_pos_ranges clean_up_state
       = Some (clean_up_state
           \<lparr> fragment_cell_pos_ranges_vec_' := [[(0, (0, 24))]],
             fragment_cell_pos_ranges_vec_pos_' := [0, 0, 0] \<rparr>)"
  by (simp add: clean_up_processed_fragment_cell_pos_ranges_def clean_up_state_def state_2d_def
      schema_2d_def vec_at_def Let_def)

section \<open>The unimplemented reads\<close>

text \<open>
  Claim C9 as stated, on the one-dimensional array with its copying fragment: the read
  call on the array declared sparse does not return the error status, and neither does
  the read call on the dense array whose first requested attribute is variable-sized.
\<close>

theorem unimplemented_reads_return_no_error_status:
  "map_option fst (read_multiple_fragments sparse_array_state [[0, 0, 0, 0]] [4])
     \<noteq> Some (Some TILEDB_ARS_ERR)
   \<and> map_option fst
        (read_multiple_fragments var_attribute_state [[0, 0, 0, 0], [0, 0, 0, 0], [0, 0, 0, 0]]
           [4, 4, 4])
     \<noteq> Some (Some TILEDB_ARS_ERR)"
  by code_simp

text \<open>
  Claim C9 as amended. A read call on an array that has a fragment and whose schema is
  not dense goes to \<open>read_multiple_fragments_sparse\<close>; a read call on a dense array whose
  first requested attribute is variable-sized goes to
  \<open>read_multiple_fragments_dense_attr_var\<close>. Either function ends without a \<open>return\<close>,
  so the call has undefined behaviour, whatever the state and the buffers: no status,
  and no error status in particular, is returned.
\<close>

theorem unimplemented_reads_are_undefined:
  assumes "fragments s \<noteq> []"
  shows "(\<not> array_dense (array_schema s) \<longrightarrow>
            map_option fst (read_multiple_fragments s buffers buffer_sizes)
              = Some (Some UNDEFINED_BEHAVIOUR))
       \<and> (array_dense (array_schema s) \<and> attribute_ids s = a # rest
            \<and> var_size (array_schema s) a \<longrightarrow>
            map_option fst (read_multiple_fragments s buffers buffer_sizes)
              = Some (Some UNDEFINED_BEHAVIOUR))"
  using assms
  by (auto simp: read_multiple_fragments_def read_multiple_fragments_dense_def
      read_multiple_fragments_sparse_def read_multiple_fragments_dense_attr_var_def Let_def)

theorem unimplemented_reads_are_undefined_witness:
  "map_option fst (read_multiple_fragments sparse_array_state [[0, 0, 0, 0]] [4])
     = Some (Some UNDEFINED_BEHAVIOUR)
   \<and> map_option fst
        (read_multiple_fragments var_attribute_state [[0, 0, 0, 0], [0, 0, 0, 0], [0, 0, 0, 0]]
           [4, 4, 4])
     = Some (Some UNDEFINED_BEHAVIOUR)"
  using unimplemented_reads_are_undefined [where s = sparse_array_state and a = 0
      and rest = "[]" and buffers = "[[0, 0, 0, 0]]" and buffer_sizes = "[4]"]
    unimplemented_reads_are_undefined [where s = var_attribute_state and a = 0
      and rest = "[1]" and buffers = "[[0, 0, 0, 0], [0, 0, 0, 0], [0, 0, 0, 0]]"
      and buffer_sizes = "[4, 4, 4]"]
  by (simp add: sparse_array_state_def var_attribute_state_def fresh_state_def schema_1d_def)

section \<open>Reads of the top of an empty heap\<close>

lemmas merge_run_simps =
  compute_fragment_cell_pos_ranges_def state_1d_def schema_1d_def dense_fragment_def
  sparse_fragment_def merge_loop.simps discard_loop.simps trim_popped_def pq_push_def
  pq_top_def pq_pop_def pq_empty_def SmallerFragmentCellRange_def vec_at_def
  tile_domain_T_def tile_domain_end_T_def normalize_coords_def Let_def

text \<open>
  Claim C8, at the input where fragment \<open>0\<close> is dense with the range \<open>[0, 9]\<close> and
  fragment \<open>1\<close> is sparse, stores only cell \<open>3\<close>, and contributes the unary range
  \<open>[9, 9]\<close>. After the dense range has been cut to \<open>[0, 8]\<close> and emitted, the unary range
  is popped and leaves the heap empty; it is sparse, unary and its coordinate does not
  exist, so the test of the trivial case fails and control falls through to
  \<open>top = pq.top()\<close> (line 296) on the empty heap before the range is discarded. The
  ghost flag of the run is set.
\<close>

theorem trivial_case_reads_empty_top:
  "merge_loop schema_1d [dense_fragment, sparse_fragment [3]] [0, 9] [9]
      [(1, [9], [9])] [(0, [0], [8])] False
     = Some (TILEDB_ARS_OK, [(0, [0], [8])], True)
   \<and> compute_fragment_cell_pos_ranges (state_1d [dense_fragment, sparse_fragment [3]])
        [(0, [0], [9]), (1, [9], [9])]
     = Some (TILEDB_ARS_OK, [(0, (0, 8))], True)"
  by (simp add: merge_run_simps)

text \<open>
  Claim C10, at the input where fragment \<open>1\<close> is dense with the range \<open>[0, 9]\<close> and the
  older dense fragment \<open>0\<close> contributes \<open>[2, 5]\<close>. The newer range is popped, the older
  one is the top and lies inside it, so the inner loop discards it: \<open>pq.pop()\<close> empties
  the heap and the next statement, \<open>top = pq.top()\<close> (line 352), reads the top of the
  empty heap before the loop condition is evaluated again.
\<close>

theorem discard_loop_reads_empty_top:
  "discard_loop schema_1d [0, 9] (1, [0], [9]) [(0, [2], [5])] (Some (0, [2], [5])) False
     = Some ([], None, True)
   \<and> compute_fragment_cell_pos_ranges (state_1d [dense_fragment, dense_fragment])
        [(1, [0], [9]), (0, [2], [5])]
     = Some (TILEDB_ARS_OK, [(1, (0, 9))], True)"
  by (simp add: merge_run_simps)

section \<open>Overflow is success with the position kept\<close>








section \<open>The heap under the schema's contract\<close>

lemma Smaller_iff:
  assumes "cell_order_contract S td C P" "fst (snd a) \<in> C" "fst (snd b) \<in> C"
  shows "SmallerFragmentCellRange S a b \<longleftrightarrow> \<not> pops_before P a b"
proof -
  from assms have
    "cell_order_cmp S (fst (snd a)) (fst (snd b)) < 0 \<longleftrightarrow> P (fst (snd a)) < P (fst (snd b))"
    "cell_order_cmp S (fst (snd a)) (fst (snd b)) > 0 \<longleftrightarrow> P (fst (snd b)) < P (fst (snd a))"
    unfolding cell_order_contract_def by blast+
  then show ?thesis
    by (auto simp: SmallerFragmentCellRange_def pops_before_def range_lo_def Let_def)
qed

lemma pops_before_trans: "pops_before P a b \<Longrightarrow> pops_before P b c \<Longrightarrow> pops_before P a c"
  by (auto simp: pops_before_def)

lemma pops_before_total: "pops_before P a b \<or> pops_before P b a"
  by (auto simp: pops_before_def)

lemma pq_select_min:
  assumes "cell_order_contract S td C P" "fst (snd m) \<in> C" "\<forall>x\<in>set xs. fst (snd x) \<in> C"
  shows "pq_select (SmallerFragmentCellRange S) m xs \<in> set (m # xs)
       \<and> (\<forall>y\<in>set (m # xs). pops_before P (pq_select (SmallerFragmentCellRange S) m xs) y)"
  using assms(2,3)
proof (induction xs arbitrary: m)
  case Nil
  then show ?case by (simp add: pops_before_def)
next
  case (Cons x xs)
  let ?m' = "if SmallerFragmentCellRange S m x then x else m"
  have m': "fst (snd ?m') \<in> C" using Cons.prems by simp
  have xs: "\<forall>x\<in>set xs. fst (snd x) \<in> C" using Cons.prems by simp
  note IH = Cons.IH [OF m' xs]
  have sm: "SmallerFragmentCellRange S m x \<longleftrightarrow> \<not> pops_before P m x"
    using Smaller_iff [OF assms(1)] Cons.prems by simp
  have "pops_before P ?m' m \<and> pops_before P ?m' x"
    using sm pops_before_total [of P m x] by (auto simp: pops_before_def)
  with IH show ?case
    by (auto intro: pops_before_trans simp del: SmallerFragmentCellRange_def)
qed

lemma pq_top_min:
  assumes "cell_order_contract S td C P" "\<forall>x\<in>set q. fst (snd x) \<in> C"
    and "pq_top (SmallerFragmentCellRange S) q = Some m"
  shows "m \<in> set q \<and> (\<forall>y\<in>set q. pops_before P m y)"
proof (cases q)
  case Nil
  with assms(3) show ?thesis by (simp add: pq_top_def)
next
  case (Cons x xs)
  with assms(3) have m: "m = pq_select (SmallerFragmentCellRange S) x xs"
    by (simp add: pq_top_def)
  from pq_select_min [OF assms(1), of x xs] assms(2) Cons m show ?thesis by simp
qed

lemma pq_top_None: "pq_top lt q = None \<longleftrightarrow> q = []"
  by (cases q) (simp_all add: pq_top_def)

lemma pq_select_snoc:
  "pq_select lt m (xs @ [y]) = (if lt (pq_select lt m xs) y then y else pq_select lt m xs)"
  by (induction xs arbitrary: m) simp_all

lemma pq_top_push:
  "pq_top lt q = Some m \<Longrightarrow> pq_top lt (pq_push y q) = Some (if lt m y then y else m)"
  by (cases q) (simp_all add: pq_top_def pq_push_def pq_select_snoc)

section \<open>Algebra of the winner\<close>

lemma newer_None_right [simp]: "newer x None = x"
  by (cases x) simp_all

lemma newer_assoc: "newer (newer x y) z = newer x (newer y z)"
  by (cases x; cases y; cases z) simp_all

lemma newer_commute: "newer x y = newer y x"
  by (cases x; cases y) (simp_all add: max.commute)

lemma newer_left_commute: "newer x (newer y z) = newer y (newer x z)"
  by (cases x; cases y; cases z) (simp_all add: max.left_commute)

lemma newer_absorb: "a \<le> b \<Longrightarrow> newer (Some b) (newer (Some a) x) = newer (Some b) x"
  by (cases x) simp_all

lemma newer_idem: "newer (Some a) (newer (Some a) x) = newer (Some a) x"
  by (cases x) simp_all

lemma winner_append: "winner P (A @ B) p = newer (winner P A p) (winner P B p)"
  by (induction A) (simp_all add: newer_assoc)

lemma winner_remove1:
  "T \<in> set L \<Longrightarrow>
   winner P L p = (if covers P T p then newer (Some (fst T)) (winner P (remove1 T L) p)
                   else winner P (remove1 T L) p)"
proof (induction L)
  case Nil
  then show ?case by simp
next
  case (Cons x L)
  show ?case
  proof (cases "x = T")
    case True
    then show ?thesis by simp
  next
    case False
    with Cons.prems have "T \<in> set L" by simp
    from Cons.IH [OF this] False show ?thesis
      by (simp add: newer_left_commute)
  qed
qed

lemma winner_pop:
  "popped \<in> set pq \<Longrightarrow> winner P (popped # remove1 popped pq) p = winner P pq p"
  using winner_remove1 [of popped pq P p] by simp

lemma winner_None_iff: "winner P L p = None \<longleftrightarrow> (\<forall>r\<in>set L. \<not> covers P r p)"
proof (induction L)
  case Nil
  then show ?case by simp
next
  case (Cons r L)
  then show ?case by (cases "winner P L p") auto
qed

lemma winner_disjoint:
  assumes "sorted_wrt (\<lambda>a b. range_hi P a < range_lo P b) res"
    and "\<forall>r\<in>set res. range_lo P r \<le> range_hi P r"
  shows "winner P res p = Some f \<longleftrightarrow> (\<exists>r\<in>set res. fst r = f \<and> covers P r p)"
  using assms
proof (induction res)
  case Nil
  then show ?case by simp
next
  case (Cons r res)
  then have IH: "winner P res p = Some f \<longleftrightarrow> (\<exists>r\<in>set res. fst r = f \<and> covers P r p)"
    by simp
  show ?case
  proof (cases "covers P r p")
    case True
    from Cons.prems True have "\<forall>q\<in>set res. \<not> covers P q p"
      by (auto simp: covers_def)
    then have "winner P res p = None" by (simp add: winner_None_iff)
    with True \<open>\<forall>q\<in>set res. \<not> covers P q p\<close> show ?thesis by auto
  next
    case False
    with IH show ?thesis by auto
  qed
qed

lemma total_cells_remove1:
  "T \<in> set L \<Longrightarrow>
   total_cells P L = nat (range_hi P T - range_lo P T + 1) + total_cells P (remove1 T L)"
  unfolding total_cells_def
  by (induction L) auto

lemma total_cells_append [simp]: "total_cells P (A @ B) = total_cells P A + total_cells P B"
  by (simp add: total_cells_def)

lemma total_cells_single [simp]: "total_cells P [r] = nat (range_hi P r - range_lo P r + 1)"
  by (simp add: total_cells_def)

lemma contract_cmp:
  assumes "cell_order_contract S td C P" "a \<in> C" "b \<in> C"
  shows "cell_order_cmp S a b < 0 \<longleftrightarrow> P a < P b"
    and "0 < cell_order_cmp S a b \<longleftrightarrow> P b < P a"
    and "0 \<le> cell_order_cmp S a b \<longleftrightarrow> P b \<le> P a"
    and "cell_order_cmp S a b \<le> 0 \<longleftrightarrow> P a \<le> P b"
proof -
  from assms have 1: "cell_order_cmp S a b < 0 \<longleftrightarrow> P a < P b"
    and 2: "0 < cell_order_cmp S a b \<longleftrightarrow> P b < P a"
    unfolding cell_order_contract_def by blast+
  show "cell_order_cmp S a b < 0 \<longleftrightarrow> P a < P b" by (rule 1)
  show "0 < cell_order_cmp S a b \<longleftrightarrow> P b < P a" by (rule 2)
  show "0 \<le> cell_order_cmp S a b \<longleftrightarrow> P b \<le> P a" using 1 by linarith
  show "cell_order_cmp S a b \<le> 0 \<longleftrightarrow> P a \<le> P b" using 2 by linarith
qed

lemma contract_next:
  assumes "cell_order_contract S td C P" "a \<in> C" "b \<in> C" "P a < P b"
  shows "get_next_cell_coords S td a \<in> C" "P (get_next_cell_coords S td a) = P a + 1"
  using assms unfolding cell_order_contract_def by blast+

lemma contract_prev:
  assumes "cell_order_contract S td C P" "a \<in> C" "b \<in> C" "P b < P a"
  shows "get_previous_cell_coords S td a \<in> C" "P (get_previous_cell_coords S td a) = P a - 1"
  using assms unfolding cell_order_contract_def by blast+

lemma range_simps [simp]:
  "range_lo P (f, a, b) = P a" "range_hi P (f, a, b) = P b"
  by (simp_all add: range_lo_def range_hi_def)

lemma frag_disjointD:
  "frag_disjoint P L \<Longrightarrow> a \<in> set L \<Longrightarrow> b \<in> set L \<Longrightarrow> a \<noteq> b \<Longrightarrow> fst a = fst b \<Longrightarrow>
   range_hi P a < range_lo P b \<or> range_hi P b < range_lo P a"
  unfolding frag_disjoint_def by blast

section \<open>The discard loop\<close>

text \<open>
  One iteration of the inner loop: the top \<open>T\<close> comes from an older fragment and starts
  inside the popped range. It leaves the heap, and its part behind the popped range, if
  there is one, comes back. The ranges stay well formed and disjoint per fragment, the
  winner of every position among the popped range and the heap is unchanged, and the
  heap holds fewer cells.
\<close>

lemma discard_step:
  assumes ctx: "cell_order_contract S td C P"
    and pv: "dense_range frags C P popped"
    and qv: "\<forall>q\<in>set pq. dense_range frags C P q"
    and ord: "\<forall>q\<in>set pq. pops_before P popped q"
    and dis: "frag_disjoint P (popped # pq)"
    and T: "T \<in> set pq"
    and older: "fst T < fst popped"
    and inside: "range_lo P T \<le> range_hi P popped"
    and pq2: "pq2 = (if range_hi P popped < range_hi P T
                     then remove1 T pq @ [(fst T, get_next_cell_coords S td (snd (snd popped)),
                                          snd (snd T))]
                     else remove1 T pq)"
  shows "(\<forall>q\<in>set pq2. dense_range frags C P q \<and> pops_before P popped q)"
    and "frag_disjoint P (popped # pq2)"
    and "\<forall>p. winner P (popped # pq2) p = winner P (popped # pq) p"
    and "total_cells P pq2 < total_cells P pq"
proof -
  let ?tr = "(fst T, get_next_cell_coords S td (snd (snd popped)), snd (snd T))"
  from pv have pC: "fst (snd popped) \<in> C" "snd (snd popped) \<in> C"
    and pl: "range_lo P popped \<le> range_hi P popped"
    by (simp_all add: dense_range_def)
  from qv T have Tv: "dense_range frags C P T" by blast
  then have TC: "fst (snd T) \<in> C" "snd (snd T) \<in> C"
    and Tl: "range_lo P T \<le> range_hi P T"
    by (simp_all add: dense_range_def)
  from ord T have pT: "range_lo P popped \<le> range_lo P T"
    by (auto simp: pops_before_def)
  have rm: "set (remove1 T pq) = set pq - {T}"
    using dis by (simp add: frag_disjoint_def)
  have len: "total_cells P pq = nat (range_hi P T - range_lo P T + 1) + total_cells P (remove1 T pq)"
    by (rule total_cells_remove1 [OF T])
  have trim:
    "range_hi P popped < range_hi P T \<Longrightarrow>
       dense_range frags C P ?tr \<and> range_lo P ?tr = range_hi P popped + 1
       \<and> range_hi P ?tr = range_hi P T"
  proof -
    assume a: "range_hi P popped < range_hi P T"
    then have n: "get_next_cell_coords S td (snd (snd popped)) \<in> C"
      "P (get_next_cell_coords S td (snd (snd popped))) = range_hi P popped + 1"
      using contract_next [OF ctx pC(2) TC(2)] by (simp_all add: range_hi_def)
    with a Tv TC show ?thesis
      by (simp add: dense_range_def range_hi_def)
  qed
  show "total_cells P pq2 < total_cells P pq"
  proof (cases "range_hi P popped < range_hi P T")
    case True
    from trim [OF True] have "nat (range_hi P ?tr - range_lo P ?tr + 1)
        < nat (range_hi P T - range_lo P T + 1)"
      using inside True by simp
    with True pq2 len show ?thesis by (simp del: range_simps)
  next
    case False
    with pq2 len Tl show ?thesis by simp
  qed
  show "\<forall>q\<in>set pq2. dense_range frags C P q \<and> pops_before P popped q"
  proof
    fix q assume q: "q \<in> set pq2"
    show "dense_range frags C P q \<and> pops_before P popped q"
    proof (cases "q \<in> set pq")
      case True
      with qv ord show ?thesis by blast
    next
      case False
      with q pq2 rm have h: "range_hi P popped < range_hi P T" "q = ?tr"
        by (auto split: if_splits)
      from trim [OF h(1)] pl h(2) show ?thesis
        by (simp add: pops_before_def)
    qed
  qed
  show "frag_disjoint P (popped # pq2)"
  proof (cases "range_hi P popped < range_hi P T")
    case False
    with pq2 have "pq2 = remove1 T pq" by simp
    with dis rm show ?thesis
      by (auto simp: frag_disjoint_def)
  next
    case True
    note tr = trim [OF True]
    have trnew: "?tr \<notin> set pq"
    proof
      assume m: "?tr \<in> set pq"
      show False
      proof (cases "?tr = T")
        case True
        with tr inside show False by simp
      next
        case False
        from frag_disjointD [OF dis _ _ False] m T
        have "range_hi P ?tr < range_lo P T \<or> range_hi P T < range_lo P ?tr" by simp
        with tr Tl inside True show False by simp
      qed
    qed
    have trp: "?tr \<noteq> popped"
    proof
      assume "?tr = popped"
      then have "fst ?tr = fst popped" by (rule arg_cong)
      with older show False by simp
    qed
    have set2: "set pq2 = insert ?tr (set pq - {T})"
      using pq2 True rm by simp
    have d: "distinct (popped # pq2)"
      using dis pq2 True trnew trp rm by (auto simp: frag_disjoint_def)
    have pair: "\<forall>a\<in>set (popped # pq2). \<forall>b\<in>set (popped # pq2). a \<noteq> b \<and> fst a = fst b \<longrightarrow>
        range_hi P a < range_lo P b \<or> range_hi P b < range_lo P a"
    proof (intro ballI impI)
      fix a b assume a: "a \<in> set (popped # pq2)" and b: "b \<in> set (popped # pq2)"
        and ab: "a \<noteq> b \<and> fst a = fst b"
      have old: "\<And>x y. x \<in> set (popped # pq) \<Longrightarrow> y \<in> set (popped # pq) \<Longrightarrow> x \<noteq> y
          \<Longrightarrow> fst x = fst y \<Longrightarrow> range_hi P x < range_lo P y \<or> range_hi P y < range_lo P x"
        using frag_disjointD [OF dis] by blast
      have withtr: "\<And>y. y \<in> set (popped # pq2) \<Longrightarrow> y \<noteq> ?tr \<Longrightarrow> fst y = fst T
          \<Longrightarrow> range_hi P ?tr < range_lo P y \<or> range_hi P y < range_lo P ?tr"
      proof -
        fix y assume y: "y \<in> set (popped # pq2)" "y \<noteq> ?tr" "fst y = fst T"
        with older have "y \<noteq> popped" by auto
        with y set2 have yq: "y \<in> set pq" "y \<noteq> T" by auto
        from old [of y T] yq T y(3)
        have "range_hi P y < range_lo P T \<or> range_hi P T < range_lo P y" by simp
        with tr inside show "range_hi P ?tr < range_lo P y \<or> range_hi P y < range_lo P ?tr"
          by auto
      qed
      show "range_hi P a < range_lo P b \<or> range_hi P b < range_lo P a"
      proof (cases "a = ?tr")
        case True
        from ab True have "b \<noteq> ?tr" "fst b = fst T" by auto
        from withtr [OF b this] show ?thesis unfolding True by blast
      next
        case na: False
        show ?thesis
        proof (cases "b = ?tr")
          case True
          from ab True have "a \<noteq> ?tr" "fst a = fst T" by auto
          from withtr [OF a this] show ?thesis unfolding True by blast
        next
          case False
          with na a b set2 have "a \<in> set (popped # pq)" "b \<in> set (popped # pq)" by auto
          with old ab show ?thesis by blast
        qed
      qed
    qed
    from d pair show ?thesis unfolding frag_disjoint_def by blast
  qed
  show "\<forall>p. winner P (popped # pq2) p = winner P (popped # pq) p"
  proof
    fix p
    have w: "winner P pq p = (if covers P T p then newer (Some (fst T)) (winner P (remove1 T pq) p)
                   else winner P (remove1 T pq) p)"
      by (rule winner_remove1 [OF T])
    show "winner P (popped # pq2) p = winner P (popped # pq) p"
    proof (cases "range_hi P popped < range_hi P T")
      case False
      with pq2 have e: "pq2 = remove1 T pq" by simp
      from False pT have "covers P T p \<Longrightarrow> covers P popped p"
        by (auto simp: covers_def)
      with w e older show ?thesis
        by (auto simp: newer_absorb)
    next
      case True
      note tr = trim [OF True]
      from pq2 True have e: "pq2 = remove1 T pq @ [?tr]" by simp
      have c1: "covers P ?tr p \<longleftrightarrow> range_hi P popped < p \<and> p \<le> range_hi P T"
        using tr by (auto simp: covers_def)
      have c2: "covers P T p \<Longrightarrow> \<not> covers P ?tr p \<Longrightarrow> covers P popped p"
        using c1 pT by (auto simp: covers_def)
      have c3: "covers P ?tr p \<Longrightarrow> covers P T p \<and> \<not> covers P popped p"
        using c1 inside by (auto simp: covers_def)
      show ?thesis
        using w c2 c3 older
        by (cases "covers P ?tr p"; cases "covers P T p")
           (auto simp: e winner_append newer_absorb newer_commute)
    qed
  qed
qed

text \<open>
  The loop ends, by induction on the number of cells in the heap; at its end the top is
  not an older range that starts inside the popped one.
\<close>

lemma discard_loop_correct:
  assumes ctx: "cell_order_contract S td C P"
    and pv: "dense_range frags C P popped"
  shows "\<forall>q\<in>set pq. dense_range frags C P q \<Longrightarrow>
         \<forall>q\<in>set pq. pops_before P popped q \<Longrightarrow>
         frag_disjoint P (popped # pq) \<Longrightarrow>
     \<exists>pq' flag'.
        discard_loop S td popped pq (pq_top (SmallerFragmentCellRange S) pq) flag
          = Some (pq', pq_top (SmallerFragmentCellRange S) pq', flag')
      \<and> (\<forall>q\<in>set pq'. dense_range frags C P q \<and> pops_before P popped q)
      \<and> frag_disjoint P (popped # pq')
      \<and> (\<forall>p. winner P (popped # pq') p = winner P (popped # pq) p)
      \<and> total_cells P pq' \<le> total_cells P pq
      \<and> (\<forall>T. pq_top (SmallerFragmentCellRange S) pq' = Some T \<longrightarrow>
               \<not> (fst T < fst popped \<and> range_lo P T \<le> range_hi P popped))"
proof (induction "total_cells P pq" arbitrary: pq flag rule: less_induct)
  case less
  note qv = less.prems(1) and ord = less.prems(2) and dis = less.prems(3)
  let ?lt = "SmallerFragmentCellRange S"
  from pv have pC: "fst (snd popped) \<in> C" "snd (snd popped) \<in> C"
    by (simp_all add: dense_range_def)
  show ?case
  proof (cases "pq_top ?lt pq")
    case None
    then have "pq = []" by (simp add: pq_top_None)
    then show ?thesis
      using dis by (subst discard_loop.simps) (simp add: pq_empty_def pq_top_def)
  next
    case (Some T)
    obtain ft tf tl where Teq: "T = (ft, tf, tl)" by (cases T) auto
    have qC: "\<forall>x\<in>set pq. fst (snd x) \<in> C"
      using qv by (simp add: dense_range_def)
    from pq_top_min [OF ctx qC Some] have T: "T \<in> set pq" by blast
    then have ne: "pq \<noteq> []" by auto
    from qv T have Tv: "dense_range frags C P T" by blast
    then have TC: "tf \<in> C" "tl \<in> C"
      by (simp_all add: dense_range_def Teq)
    from ord T have pT: "range_lo P popped \<le> range_lo P T"
      by (auto simp: pops_before_def)
    have c1: "0 \<le> cell_order_cmp S tf (fst (snd popped))"
      using contract_cmp(3) [OF ctx TC(1) pC(1)] pT by (simp add: Teq range_lo_def)
    have c2: "cell_order_cmp S tf (snd (snd popped)) \<le> 0 \<longleftrightarrow> range_lo P T \<le> range_hi P popped"
      using contract_cmp(4) [OF ctx TC(1) pC(2)] by (simp add: Teq range_hi_def)
    have c3: "0 < cell_order_cmp S tl (snd (snd popped)) \<longleftrightarrow> range_hi P popped < range_hi P T"
      using contract_cmp(2) [OF ctx TC(2) pC(2)] by (simp add: Teq range_hi_def)
    show ?thesis
    proof (cases "fst T < fst popped \<and> range_lo P T \<le> range_hi P popped")
      case False
      then have "discard_loop S td popped pq (Some T) flag = Some (pq, Some T, flag)"
        using c2 by (subst discard_loop.simps) (auto simp: Teq)
      with Some False qv ord dis show ?thesis by auto
    next
      case True
      define pq2 where "pq2 = (if range_hi P popped < range_hi P T
                     then remove1 T pq @ [(fst T, get_next_cell_coords S td (snd (snd popped)),
                                          snd (snd T))]
                     else remove1 T pq)"
      note step = discard_step [OF ctx pv qv ord dis T _ _ pq2_def]
      from True have older: "fst T < fst popped" and inside: "range_lo P T \<le> range_hi P popped"
        by simp_all
      note s1 = step(1) [OF older inside] and s2 = step(2) [OF older inside]
        and s3 = step(3) [OF older inside] and s4 = step(4) [OF older inside]
      have pop: "pq_pop ?lt (if 0 < cell_order_cmp S tl (snd (snd popped))
                   then pq_push (ft, get_next_cell_coords S td (snd (snd popped)), tl) pq
                   else pq) = pq2"
      proof (cases "range_hi P popped < range_hi P T")
        case False
        with c3 Some T show ?thesis
          by (simp add: pq_pop_def pq2_def)
      next
        case hi: True
        let ?tr = "(ft, get_next_cell_coords S td (snd (snd popped)), tl)"
        have n: "get_next_cell_coords S td (snd (snd popped)) \<in> C"
          "P (get_next_cell_coords S td (snd (snd popped))) = range_hi P popped + 1"
          using contract_next [OF ctx pC(2) TC(2)] hi
          by (simp_all add: range_hi_def Teq)
        have "pops_before P T ?tr"
          using n inside by (simp add: pops_before_def)
        then have "\<not> ?lt T ?tr"
          using Smaller_iff [OF ctx, of T ?tr] TC n by (simp add: Teq)
        then have "pq_top ?lt (pq_push ?tr pq) = Some T"
          using pq_top_push [OF Some, of ?tr] by simp
        with hi c3 T show ?thesis
          by (simp add: pq_pop_def pq2_def pq_push_def remove1_append Teq)
      qed
      have rec: "discard_loop S td popped pq (Some T) flag
          = discard_loop S td popped pq2 (pq_top ?lt pq2) (flag \<or> pq_top ?lt pq2 = None)"
        using True c1 c2 ne pop
        by (subst discard_loop.simps) (simp add: Teq pq_empty_def Let_def)
      from s1 have qv2: "\<forall>q\<in>set pq2. dense_range frags C P q"
        and ord2: "\<forall>q\<in>set pq2. pops_before P popped q" by blast+
      from less.hyps [OF s4 qv2 ord2 s2, of "flag \<or> pq_top ?lt pq2 = None"]
      obtain pq' flag' where
        r: "discard_loop S td popped pq2 (pq_top ?lt pq2) (flag \<or> pq_top ?lt pq2 = None)
              = Some (pq', pq_top ?lt pq', flag')"
        and r1: "\<forall>q\<in>set pq'. dense_range frags C P q \<and> pops_before P popped q"
        and r2: "frag_disjoint P (popped # pq')"
        and r3: "\<forall>p. winner P (popped # pq') p = winner P (popped # pq2) p"
        and r4: "total_cells P pq' \<le> total_cells P pq2"
        and r5: "\<forall>T. pq_top ?lt pq' = Some T \<longrightarrow>
               \<not> (fst T < fst popped \<and> range_lo P T \<le> range_hi P popped)"
        by blast
      from r3 s3 have w: "\<forall>p. winner P (popped # pq') p = winner P (popped # pq) p" by simp
      from r4 s4 have m: "total_cells P pq' \<le> total_cells P pq" by simp
      from rec r Some r1 r2 w m r5 show ?thesis by auto
    qed
  qed
qed

section \<open>The trimming of the popped range\<close>

lemma trim_step:
  assumes ctx: "cell_order_contract S td C P"
    and pv: "dense_range frags C P popped"
    and qv: "\<forall>q\<in>set pq2. dense_range frags C P q \<and> pops_before P popped q"
    and dis: "frag_disjoint P (popped # pq2)"
    and exit: "\<forall>T. pq_top (SmallerFragmentCellRange S) pq2 = Some T \<longrightarrow>
               \<not> (fst T < fst popped \<and> range_lo P T \<le> range_hi P popped)"
    and tp: "trim_popped S td popped pq2 (pq_top (SmallerFragmentCellRange S) pq2) = (pq3, popped')"
  shows "dense_range frags C P popped'"
    and "\<forall>q\<in>set pq3. dense_range frags C P q"
    and "frag_disjoint P pq3"
    and "\<forall>q\<in>set pq3. range_hi P popped' < range_lo P q"
    and "range_lo P popped' = range_lo P popped"
    and "\<forall>p. winner P (popped' # pq3) p = winner P (popped # pq2) p"
    and "total_cells P pq3 < total_cells P pq2 + nat (range_hi P popped - range_lo P popped + 1)"
proof -
  let ?lt = "SmallerFragmentCellRange S"
  from pv have pC: "fst (snd popped) \<in> C" "snd (snd popped) \<in> C"
    and pl: "range_lo P popped \<le> range_hi P popped"
    by (simp_all add: dense_range_def)
  have qC: "\<forall>x\<in>set pq2. fst (snd x) \<in> C"
    using qv by (simp add: dense_range_def)
  have dis2: "frag_disjoint P pq2"
    using dis by (auto simp: frag_disjoint_def)
  have pnot: "popped \<notin> set pq2"
    using dis by (simp add: frag_disjoint_def)
  have goal: "dense_range frags C P popped'
    \<and> (\<forall>q\<in>set pq3. dense_range frags C P q)
    \<and> frag_disjoint P pq3
    \<and> (\<forall>q\<in>set pq3. range_hi P popped' < range_lo P q)
    \<and> range_lo P popped' = range_lo P popped
    \<and> (\<forall>p. winner P (popped' # pq3) p = winner P (popped # pq2) p)
    \<and> total_cells P pq3 < total_cells P pq2 + nat (range_hi P popped - range_lo P popped + 1)"
  proof (cases "pq_top ?lt pq2")
    case None
    then have "pq2 = []" by (simp add: pq_top_None)
    with tp None pv pl show ?thesis
      by (simp add: trim_popped_def frag_disjoint_def total_cells_def)
  next
    case (Some T)
    obtain ft tf tl where Teq: "T = (ft, tf, tl)" by (cases T) auto
    from pq_top_min [OF ctx qC Some] have T: "T \<in> set pq2"
      and Tmin: "\<forall>y\<in>set pq2. pops_before P T y" by blast+
    then have ne: "pq2 \<noteq> []" by auto
    from qv T have Tv: "dense_range frags C P T" and pT: "pops_before P popped T" by blast+
    from Tv have TC: "tf \<in> C" "tl \<in> C" and Tl: "range_lo P T \<le> range_hi P T"
      by (simp_all add: dense_range_def Teq)
    have lo_ge: "\<forall>q\<in>set pq2. range_lo P T \<le> range_lo P q"
      using Tmin by (auto simp: pops_before_def)
    have c2: "cell_order_cmp S tf (snd (snd popped)) \<le> 0 \<longleftrightarrow> range_lo P T \<le> range_hi P popped"
      using contract_cmp(4) [OF ctx TC(1) pC(2)] by (simp add: Teq range_hi_def)
    have c3: "cell_order_cmp S tl (snd (snd popped)) < 0 \<longleftrightarrow> range_hi P T < range_hi P popped"
      using contract_cmp(1) [OF ctx TC(2) pC(2)] by (simp add: Teq range_hi_def)
    show ?thesis
    proof (cases "fst popped < fst T \<and> range_lo P T \<le> range_hi P popped")
      case False
      with tp Some c2 have e: "pq3 = pq2" "popped' = popped"
        by (auto simp: trim_popped_def Teq)
      have far: "range_hi P popped < range_lo P T"
      proof (rule ccontr)
        assume "\<not> range_hi P popped < range_lo P T"
        then have i: "range_lo P T \<le> range_hi P popped" by simp
        with False exit Some have same: "fst T = fst popped" by force
        from pnot T have "T \<noteq> popped" by auto
        from frag_disjointD [OF dis _ _ this same] T
        have "range_hi P T < range_lo P popped \<or> range_hi P popped < range_lo P T" by simp
        with i Tl pT show False by (auto simp: pops_before_def)
      qed
      with lo_ge have "\<forall>q\<in>set pq2. range_hi P popped < range_lo P q" by fastforce
      with e pv qv dis2 pl show ?thesis by simp
    next
      case True
      then have newer_T: "fst popped < fst T" and inside: "range_lo P T \<le> range_hi P popped"
        by simp_all
      from pT newer_T have lt: "range_lo P popped < range_lo P T"
        by (auto simp: pops_before_def)
      have pr: "get_previous_cell_coords S td tf \<in> C"
        "P (get_previous_cell_coords S td tf) = range_lo P T - 1"
        using contract_prev [OF ctx TC(1) pC(1)] lt by (simp_all add: Teq range_lo_def)
      let ?ex = "(fst popped, get_next_cell_coords S td tl, snd (snd popped))"
      from tp Some True c2 c3 ne have e:
        "pq3 = (if range_hi P T < range_hi P popped then pq_push ?ex pq2 else pq2)"
        "popped' = (fst popped, fst (snd popped), get_previous_cell_coords S td tf)"
        by (auto simp: trim_popped_def Teq pq_empty_def)
      have p'f: "fst popped' = fst popped" by (simp add: e)
      have p'v: "dense_range frags C P popped'" and p'lo: "range_lo P popped' = range_lo P popped"
        and p'hi: "range_hi P popped' = range_lo P T - 1"
        using pv pr lt by (simp_all add: e dense_range_def range_lo_def)
      have ex: "range_hi P T < range_hi P popped \<Longrightarrow>
         dense_range frags C P ?ex \<and> range_lo P ?ex = range_hi P T + 1
         \<and> range_hi P ?ex = range_hi P popped"
      proof -
        assume a: "range_hi P T < range_hi P popped"
        then have "get_next_cell_coords S td tl \<in> C"
          "P (get_next_cell_coords S td tl) = range_hi P T + 1"
          using contract_next [OF ctx TC(2) pC(2)] by (simp_all add: Teq range_hi_def)
        with a pv show ?thesis by (simp add: dense_range_def range_hi_def)
      qed
      have set3: "set pq3 \<subseteq> insert ?ex (set pq2)"
        by (auto simp: e pq_push_def)
      have v3: "\<forall>q\<in>set pq3. dense_range frags C P q"
        using qv ex by (auto simp: e pq_push_def)
      have after: "\<forall>q\<in>set pq3. range_hi P popped' < range_lo P q"
      proof
        fix q assume q: "q \<in> set pq3"
        show "range_hi P popped' < range_lo P q"
        proof (cases "q \<in> set pq2")
          case True
          with lo_ge p'hi show ?thesis by fastforce
        next
          case False
          with q have "range_hi P T < range_hi P popped" "q = ?ex"
            by (auto simp: e pq_push_def split: if_splits)
          with ex p'hi Tl show ?thesis by simp
        qed
      qed
      have exnew: "range_hi P T < range_hi P popped \<Longrightarrow> ?ex \<notin> set pq2"
      proof
        assume a: "range_hi P T < range_hi P popped" and m: "?ex \<in> set pq2"
        from pnot m have "?ex \<noteq> popped" by auto
        from frag_disjointD [OF dis _ _ this] m
        have "range_hi P ?ex < range_lo P popped \<or> range_hi P popped < range_lo P ?ex" by simp
        with ex [OF a] a pl lt Tl show False by simp
      qed
      have d3: "frag_disjoint P pq3"
      proof (cases "range_hi P T < range_hi P popped")
        case False
        with e dis2 show ?thesis by simp
      next
        case a: True
        note x = ex [OF a]
        have old: "\<And>u v. u \<in> set (popped # pq2) \<Longrightarrow> v \<in> set (popped # pq2) \<Longrightarrow> u \<noteq> v
          \<Longrightarrow> fst u = fst v \<Longrightarrow> range_hi P u < range_lo P v \<or> range_hi P v < range_lo P u"
          using frag_disjointD [OF dis] by blast
        have withex: "\<And>y. y \<in> set pq2 \<Longrightarrow> fst y = fst popped
          \<Longrightarrow> range_hi P ?ex < range_lo P y \<or> range_hi P y < range_lo P ?ex"
        proof -
          fix y assume y: "y \<in> set pq2" "fst y = fst popped"
          with pnot have "y \<noteq> popped" by auto
          from old [of y popped] y this
          have "range_hi P y < range_lo P popped \<or> range_hi P popped < range_lo P y" by simp
          with x lt Tl show "range_hi P ?ex < range_lo P y \<or> range_hi P y < range_lo P ?ex"
            by auto
        qed
        have s3: "pq3 = pq2 @ [?ex]" using e a by (simp add: pq_push_def)
        have di: "distinct pq3"
          using dis2 exnew [OF a] by (simp add: s3 frag_disjoint_def)
        have pair: "\<forall>u\<in>set pq3. \<forall>v\<in>set pq3. u \<noteq> v \<and> fst u = fst v \<longrightarrow>
            range_hi P u < range_lo P v \<or> range_hi P v < range_lo P u"
        proof (intro ballI impI)
          fix u v assume u: "u \<in> set pq3" and v: "v \<in> set pq3"
            and uv: "u \<noteq> v \<and> fst u = fst v"
          show "range_hi P u < range_lo P v \<or> range_hi P v < range_lo P u"
          proof (cases "u = ?ex")
            case True
            with uv v s3 have "v \<in> set pq2" "fst v = fst popped" by auto
            from withex [OF this] show ?thesis unfolding True by blast
          next
            case nu: False
            show ?thesis
            proof (cases "v = ?ex")
              case True
              with uv u s3 have "u \<in> set pq2" "fst u = fst popped" by auto
              from withex [OF this] show ?thesis unfolding True by blast
            next
              case False
              with nu u v s3 have "u \<in> set (popped # pq2)" "v \<in> set (popped # pq2)" by auto
              with old uv show ?thesis by blast
            qed
          qed
        qed
        from di pair show ?thesis unfolding frag_disjoint_def by blast
      qed
      have tot: "total_cells P pq3 < total_cells P pq2 + nat (range_hi P popped - range_lo P popped + 1)"
      proof (cases "range_hi P T < range_hi P popped")
        case False
        with e pl show ?thesis by simp
      next
        case a: True
        from ex [OF a] have "nat (range_hi P ?ex - range_lo P ?ex + 1)
            < nat (range_hi P popped - range_lo P popped + 1)"
          using lt Tl pl a by simp
        with e a show ?thesis by (simp add: pq_push_def del: range_simps)
      qed
      have win: "\<forall>p. winner P (popped' # pq3) p = winner P (popped # pq2) p"
      proof
        fix p
        have w: "winner P pq2 p = (if covers P T p then newer (Some (fst T)) (winner P (remove1 T pq2) p)
                   else winner P (remove1 T pq2) p)"
          by (rule winner_remove1 [OF T])
        have cp': "covers P popped' p \<longleftrightarrow> range_lo P popped \<le> p \<and> p < range_lo P T"
          using p'lo p'hi by (auto simp: covers_def)
        show "winner P (popped' # pq3) p = winner P (popped # pq2) p"
        proof (cases "range_hi P T < range_hi P popped")
          case False
          with e have s3: "pq3 = pq2" by simp
          from False lt have k: "covers P popped p \<Longrightarrow> \<not> covers P popped' p \<Longrightarrow> covers P T p"
            using cp' by (auto simp: covers_def)
          have k2: "covers P popped' p \<Longrightarrow> covers P popped p \<and> \<not> covers P T p"
            using cp' inside by (auto simp: covers_def)
          show ?thesis
          proof (cases "covers P popped' p")
            case True
            with k2 show ?thesis by (simp add: s3 p'f)
          next
            case np': False
            show ?thesis
            proof (cases "covers P popped p")
              case True
              with k [OF True np'] w np' newer_T show ?thesis
                by (simp add: s3 newer_absorb newer_left_commute)
            next
              case False
              with np' show ?thesis by (simp add: s3)
            qed
          qed
        next
          case a: True
          note x = ex [OF a]
          from e a have s3: "pq3 = pq2 @ [?ex]" by (simp add: pq_push_def)
          have cx: "covers P ?ex p \<longleftrightarrow> range_hi P T < p \<and> p \<le> range_hi P popped"
            using x by (auto simp: covers_def)
          have k1: "covers P popped' p \<Longrightarrow> covers P popped p \<and> \<not> covers P ?ex p"
            using cp' cx inside Tl by (auto simp: covers_def)
          have k2: "covers P ?ex p \<Longrightarrow> covers P popped p \<and> \<not> covers P popped' p"
            using cp' cx lt Tl by (auto simp: covers_def)
          have k3: "covers P popped p \<Longrightarrow> \<not> covers P popped' p \<Longrightarrow> \<not> covers P ?ex p
              \<Longrightarrow> covers P T p"
            using cp' cx by (auto simp: covers_def)
          have k4: "\<not> covers P popped p \<Longrightarrow> \<not> covers P popped' p \<and> \<not> covers P ?ex p"
            using k1 k2 by blast
          show ?thesis
          proof (cases "covers P popped p")
            case False
            with k4 show ?thesis by (simp add: s3 winner_append)
          next
            case cp: True
            show ?thesis
            proof (cases "covers P popped' p")
              case True
              with k1 cp show ?thesis by (simp add: s3 winner_append p'f)
            next
              case np': False
              show ?thesis
              proof (cases "covers P ?ex p")
                case True
                with np' cp show ?thesis
                  by (simp add: s3 winner_append newer_commute)
              next
                case False
                with k3 [OF cp np'] have "covers P T p" by simp
                with w np' cp False newer_T show ?thesis
                  by (simp add: s3 winner_append newer_absorb newer_left_commute)
              qed
            qed
          qed
        qed
      qed
      from p'v v3 d3 after p'lo win tot show ?thesis by blast
    qed
  qed
  from goal show "dense_range frags C P popped'"
    and "\<forall>q\<in>set pq3. dense_range frags C P q"
    and "frag_disjoint P pq3"
    and "\<forall>q\<in>set pq3. range_hi P popped' < range_lo P q"
    and "range_lo P popped' = range_lo P popped"
    and "\<forall>p. winner P (popped' # pq3) p = winner P (popped # pq2) p"
    and "total_cells P pq3 < total_cells P pq2 + nat (range_hi P popped - range_lo P popped + 1)"
    by blast+
qed

section \<open>The sweep\<close>

text \<open>
  The outer loop ends, again by induction on the number of cells in the heap. The
  invariant: the ranges produced are sorted and pairwise disjoint, each of them ends
  before every range of the heap starts, and the winner of every position among the
  produced ranges and the heap together is the winner among the ranges the sweep
  started with.
\<close>

lemma merge_loop_correct:
  assumes ctx: "cell_order_contract S td C P"
  shows "\<forall>q\<in>set pq. dense_range frags C P q \<Longrightarrow>
         frag_disjoint P pq \<Longrightarrow>
         \<forall>r\<in>set res. \<forall>q\<in>set pq. range_hi P r < range_lo P q \<Longrightarrow>
         sorted_wrt (\<lambda>a b. range_hi P a < range_lo P b) res \<Longrightarrow>
         \<forall>r\<in>set res. dense_range frags C P r \<Longrightarrow>
     \<exists>res' flag'.
        merge_loop S frags td tde pq res flag = Some (TILEDB_ARS_OK, res', flag')
      \<and> (\<forall>r\<in>set res'. dense_range frags C P r)
      \<and> sorted_wrt (\<lambda>a b. range_hi P a < range_lo P b) res'
      \<and> (\<forall>p. winner P res' p = winner P (res @ pq) p)"
proof (induction "total_cells P pq" arbitrary: pq res flag rule: less_induct)
  case less
  note qv = less.prems(1) and dis = less.prems(2) and before = less.prems(3)
    and srt = less.prems(4) and rv = less.prems(5)
  let ?lt = "SmallerFragmentCellRange S"
  show ?case
  proof (cases "pq = []")
    case True
    with srt rv show ?thesis
      by (subst merge_loop.simps) (simp add: pq_empty_def)
  next
    case ne: False
    then obtain popped where top: "pq_top ?lt pq = Some popped"
      using pq_top_None [of ?lt pq] by (cases "pq_top ?lt pq") auto
    have qC: "\<forall>x\<in>set pq. fst (snd x) \<in> C"
      using qv by (simp add: dense_range_def)
    from pq_top_min [OF ctx qC top] have pin: "popped \<in> set pq"
      and pmin: "\<forall>y\<in>set pq. pops_before P popped y" by blast+
    define pq1 where "pq1 = remove1 popped pq"
    have pop: "pq_pop ?lt pq = pq1" by (simp add: pq_pop_def top pq1_def)
    from dis have set1: "set pq1 = set pq - {popped}"
      by (simp add: pq1_def frag_disjoint_def)
    from qv pin have pv: "dense_range frags C P popped" by blast
    then obtain f where f: "vec_at frags (fst popped) = Some f" "dense f"
      by (auto simp: dense_range_def split: option.splits)
    from pv have pl: "range_lo P popped \<le> range_hi P popped"
      by (simp add: dense_range_def)
    have tot: "total_cells P pq = nat (range_hi P popped - range_lo P popped + 1) + total_cells P pq1"
      unfolding pq1_def by (rule total_cells_remove1 [OF pin])
    have resb: "\<forall>r\<in>set res. range_hi P r < range_lo P popped"
      using before pin by blast
    show ?thesis
    proof (cases "pq1 = []")
      case True
      have m: "merge_loop S frags td tde pq res flag = Some (TILEDB_ARS_OK, res @ [popped], flag)"
        using ne top pop f True
        by (subst merge_loop.simps) (simp add: pq_empty_def Let_def)
      have s: "sorted_wrt (\<lambda>a b. range_hi P a < range_lo P b) (res @ [popped])"
        using srt resb by (simp add: sorted_wrt_append)
      have "pq = [popped]"
        using pin True unfolding pq1_def by (cases pq) (auto split: if_splits)
      then have w: "\<forall>p. winner P (res @ [popped]) p = winner P (res @ pq) p"
        by simp
      from m s w rv pv show ?thesis by auto
    next
      case ne1: False
      have qv1: "\<forall>q\<in>set pq1. dense_range frags C P q"
        and ord1: "\<forall>q\<in>set pq1. pops_before P popped q"
        using qv pmin set1 by auto
      have dis1: "frag_disjoint P (popped # pq1)"
        using dis set1 pin unfolding frag_disjoint_def pq1_def by auto
      from discard_loop_correct [OF ctx pv qv1 ord1 dis1, of "flag \<or> pq_top ?lt pq1 = None"]
      obtain pq2 flag2 where
        d: "discard_loop S td popped pq1 (pq_top ?lt pq1) (flag \<or> pq_top ?lt pq1 = None)
              = Some (pq2, pq_top ?lt pq2, flag2)"
        and d1: "\<forall>q\<in>set pq2. dense_range frags C P q \<and> pops_before P popped q"
        and d2: "frag_disjoint P (popped # pq2)"
        and d3: "\<forall>p. winner P (popped # pq2) p = winner P (popped # pq1) p"
        and d4: "total_cells P pq2 \<le> total_cells P pq1"
        and d5: "\<forall>T. pq_top ?lt pq2 = Some T \<longrightarrow>
               \<not> (fst T < fst popped \<and> range_lo P T \<le> range_hi P popped)"
        by blast
      obtain pq3 popped' where tp: "trim_popped S td popped pq2 (pq_top ?lt pq2) = (pq3, popped')"
        by (cases "trim_popped S td popped pq2 (pq_top ?lt pq2)") auto
      note t = trim_step [OF ctx pv d1 d2 d5 tp]
      have rec: "merge_loop S frags td tde pq res flag
          = merge_loop S frags td tde pq3 (res @ [popped']) flag2"
        using ne top pop f ne1 d tp
        by (subst merge_loop.simps) (simp add: pq_empty_def Let_def)
      have m: "total_cells P pq3 < total_cells P pq"
        using t(7) d4 tot by simp
      have b3: "\<forall>r\<in>set (res @ [popped']). \<forall>q\<in>set pq3. range_hi P r < range_lo P q"
      proof (intro ballI)
        fix r q assume r: "r \<in> set (res @ [popped'])" and q: "q \<in> set pq3"
        from t(4) q have 1: "range_hi P popped' < range_lo P q" by blast
        from t(1) have 2: "range_lo P popped' \<le> range_hi P popped'"
          by (simp add: dense_range_def)
        show "range_hi P r < range_lo P q"
        proof (cases "r = popped'")
          case True
          with 1 show ?thesis by simp
        next
          case False
          with r have "r \<in> set res" by simp
          with resb have "range_hi P r < range_lo P popped" by blast
          with 1 2 t(5) show ?thesis by simp
        qed
      qed
      have s3: "sorted_wrt (\<lambda>a b. range_hi P a < range_lo P b) (res @ [popped'])"
        using srt resb t(5) by (simp add: sorted_wrt_append)
      have v3: "\<forall>r\<in>set (res @ [popped']). dense_range frags C P r"
        using rv t(1) by simp
      from less.hyps [OF m t(2) t(3) b3 s3 v3, of flag2]
      obtain res' flag' where
        r: "merge_loop S frags td tde pq3 (res @ [popped']) flag2 = Some (TILEDB_ARS_OK, res', flag')"
        and r1: "\<forall>r\<in>set res'. dense_range frags C P r"
        and r2: "sorted_wrt (\<lambda>a b. range_hi P a < range_lo P b) res'"
        and r3: "\<forall>p. winner P res' p = winner P ((res @ [popped']) @ pq3) p"
        by blast
      have w: "\<forall>p. winner P res' p = winner P (res @ pq) p"
      proof
        fix p
        have "winner P res' p = newer (winner P res p) (winner P (popped' # pq3) p)"
          using r3 by (simp add: winner_append)
        also have "winner P (popped' # pq3) p = winner P (popped # pq1) p"
          using t(6) d3 by simp
        also have "\<dots> = winner P pq p"
          unfolding pq1_def by (rule winner_pop [OF pin])
        finally show "winner P res' p = winner P (res @ pq) p"
          by (simp add: winner_append)
      qed
      from rec r r1 r2 w show ?thesis by auto
    qed
  qed
qed

section \<open>From ranges to positions\<close>

lemma cell_pos_ranges_loop_dense:
  "\<forall>r\<in>set res. dense_range frags C P r \<Longrightarrow>
   cell_pos_ranges_loop S frags td res acc
     = (TILEDB_ARS_OK,
        acc @ map (\<lambda>r. (fst r, (range_lo (tile_pos S td) r, range_hi (tile_pos S td) r))) res)"
proof (induction res arbitrary: acc)
  case Nil
  then show ?case by simp
next
  case (Cons r res)
  obtain f a b where r: "r = (f, a, b)" by (cases r) auto
  from Cons.prems r obtain fr where "vec_at frags f = Some fr" "dense fr"
    by (auto simp: dense_range_def split: option.splits)
  with Cons r show ?case
    by (simp add: tile_pos_def)
qed

lemma plan_cells_Nil [simp]: "plan_cells [] = []"
  by (simp add: plan_cells_def)

lemma plan_cells_Cons [simp]:
  "plan_cells ((f, (a, b)) # plan) = map (Pair f) [a..b] @ plan_cells plan"
  by (simp add: plan_cells_def)

lemma plan_cells_mem:
  "(f, p) \<in> set (plan_cells (map (\<lambda>r. (fst r, (range_lo P r, range_hi P r))) res))
     \<longleftrightarrow> (\<exists>r\<in>set res. fst r = f \<and> covers P r p)"
proof (induction res)
  case Nil
  then show ?case by simp
next
  case (Cons r res)
  have "(f, p) \<in> set (map (Pair (fst r)) [range_lo P r..range_hi P r])
          \<longleftrightarrow> fst r = f \<and> covers P r p"
    by (auto simp: covers_def)
  with Cons show ?case by auto
qed

lemma plan_cells_sorted:
  assumes "sorted_wrt (\<lambda>a b. range_hi P a < range_lo P b) res"
  shows "sorted_wrt (<) (map snd (plan_cells (map (\<lambda>r. (fst r, (range_lo P r, range_hi P r))) res)))"
  using assms
proof (induction res)
  case Nil
  then show ?case by simp
next
  case (Cons r res)
  have hd: "map snd (plan_cells (map (\<lambda>r. (fst r, (range_lo P r, range_hi P r))) (r # res)))
      = [range_lo P r..range_hi P r]
        @ map snd (plan_cells (map (\<lambda>r. (fst r, (range_lo P r, range_hi P r))) res))"
    by (simp add: comp_def)
  have s1: "sorted_wrt (<) [range_lo P r..range_hi P r]"
    by (simp add: strict_sorted_iff)
  have s2: "\<forall>x\<in>set [range_lo P r..range_hi P r].
        \<forall>y\<in>set (map snd (plan_cells (map (\<lambda>r. (fst r, (range_lo P r, range_hi P r))) res))).
          x < y"
  proof (intro ballI)
    fix x y assume x: "x \<in> set [range_lo P r..range_hi P r]"
      and y: "y \<in> set (map snd (plan_cells (map (\<lambda>r. (fst r, (range_lo P r, range_hi P r))) res)))"
    from y obtain f where "(f, y) \<in> set (plan_cells (map (\<lambda>r. (fst r, (range_lo P r, range_hi P r))) res))"
      by auto
    then obtain q where q: "q \<in> set res" "covers P q y"
      unfolding plan_cells_mem by blast
    with Cons.prems have "range_hi P r < range_lo P q" by simp
    with x q show "x < y" by (simp add: covers_def)
  qed
  from Cons.prems have "sorted_wrt (\<lambda>a b. range_hi P a < range_lo P b) res" by simp
  from Cons.IH [OF this] s1 s2 show ?case
    unfolding hd sorted_wrt_append by blast
qed

lemma compute_fragment_cell_pos_ranges_dense:
  fixes s :: "'fs ArrayReadState"
  assumes tc: "range_global_tile_coords_' s = Some tc"
    and ctx: "cell_order_contract (array_schema s) (tile_domain_T (array_schema s) tc) C
                (tile_pos (array_schema s) (tile_domain_T (array_schema s) tc))"
    and valid: "\<forall>q\<in>set unsorted. dense_range (fragments s) C
                  (tile_pos (array_schema s) (tile_domain_T (array_schema s) tc)) q"
    and dis: "frag_disjoint (tile_pos (array_schema s) (tile_domain_T (array_schema s) tc)) unsorted"
  shows "\<exists>res flag.
      compute_fragment_cell_pos_ranges s unsorted
        = Some (TILEDB_ARS_OK,
                map (\<lambda>r. (fst r, (range_lo (tile_pos (array_schema s) (tile_domain_T (array_schema s) tc)) r,
                                  range_hi (tile_pos (array_schema s) (tile_domain_T (array_schema s) tc)) r))) res,
                flag)
    \<and> sorted_wrt (\<lambda>a b. range_hi (tile_pos (array_schema s) (tile_domain_T (array_schema s) tc)) a
                         < range_lo (tile_pos (array_schema s) (tile_domain_T (array_schema s) tc)) b) res
    \<and> (\<forall>r\<in>set res. range_lo (tile_pos (array_schema s) (tile_domain_T (array_schema s) tc)) r
                   \<le> range_hi (tile_pos (array_schema s) (tile_domain_T (array_schema s) tc)) r)
    \<and> (\<forall>p. winner (tile_pos (array_schema s) (tile_domain_T (array_schema s) tc)) res p
           = winner (tile_pos (array_schema s) (tile_domain_T (array_schema s) tc)) unsorted p)"
proof -
  let ?S = "array_schema s" and ?td = "tile_domain_T (array_schema s) tc"
  let ?P = "tile_pos ?S ?td"
  have pq: "foldl (\<lambda>q x. pq_push x q) [] unsorted = unsorted"
  proof -
    have "\<And>acc. foldl (\<lambda>q x. pq_push x q) acc unsorted = acc @ unsorted"
      by (induction unsorted) (simp_all add: pq_push_def)
    then show ?thesis by simp
  qed
  from merge_loop_correct [OF ctx valid dis, of "[]" "tile_domain_end_T ?S ?td" False]
  obtain res flag where
    m: "merge_loop ?S (fragments s) ?td (tile_domain_end_T ?S ?td) unsorted [] False
          = Some (TILEDB_ARS_OK, res, flag)"
    and v: "\<forall>r\<in>set res. dense_range (fragments s) C ?P r"
    and srt: "sorted_wrt (\<lambda>a b. range_hi ?P a < range_lo ?P b) res"
    and w: "\<forall>p. winner ?P res p = winner ?P ([] @ unsorted) p"
    by auto
  from cell_pos_ranges_loop_dense [OF v, of ?S ?td "[]"]
  have c: "cell_pos_ranges_loop ?S (fragments s) ?td res []
     = (TILEDB_ARS_OK, map (\<lambda>r. (fst r, (range_lo ?P r, range_hi ?P r))) res)"
    by simp
  have "compute_fragment_cell_pos_ranges s unsorted
        = Some (TILEDB_ARS_OK, map (\<lambda>r. (fst r, (range_lo ?P r, range_hi ?P r))) res, flag)"
    using tc pq m c by (simp add: compute_fragment_cell_pos_ranges_def Let_def)
  moreover from v have "\<forall>r\<in>set res. range_lo ?P r \<le> range_hi ?P r"
    by (simp add: dense_range_def)
  ultimately show ?thesis using srt w by auto
qed

section \<open>The plan of a tile from dense fragments\<close>

lemma tile_domain_1d: "tile_domain_T schema_1d [0] = [0, 9]"
  by (simp add: tile_domain_T_def schema_1d_def Let_def)

lemma tile_pos_1d: "tile_pos schema_1d [0, 9] [x] = x"
  by (simp add: tile_pos_def normalize_coords_def schema_1d_def)

lemma contract_1d:
  "cell_order_contract schema_1d (tile_domain_T schema_1d [0]) tile_cells_1d
     (tile_pos schema_1d (tile_domain_T schema_1d [0]))"
proof -
  have cmp: "\<And>a b. cell_order_cmp schema_1d [a] [b] = (if a < b then - 1 else if b < a then 1 else 0)"
    by (simp add: schema_1d_def)
  have nxt: "\<And>td a. get_next_cell_coords schema_1d td [a] = [a + 1]"
    and prv: "\<And>td a. get_previous_cell_coords schema_1d td [a] = [a - 1]"
    by (simp_all add: schema_1d_def)
  show ?thesis
    unfolding cell_order_contract_def tile_domain_1d tile_cells_1d_def
    by (auto simp: tile_pos_1d cmp nxt prv)
qed

lemma dense_run:
  "compute_fragment_cell_pos_ranges (state_1d [dense_fragment, dense_fragment])
        [(0, [0], [9]), (1, [2], [5])]
     = Some (TILEDB_ARS_OK, [(0, (0, 1)), (1, (2, 5)), (0, (6, 9))], False)"
  by (simp add: merge_run_simps)

lemma dense_run_hyps:
  "range_global_tile_coords_' (state_1d [dense_fragment, dense_fragment]) = Some [0]"
  "\<forall>q\<in>set [(0, [0], [9]), (1, [2], [5])].
      dense_range (fragments (state_1d [dense_fragment, dense_fragment])) tile_cells_1d
        (tile_pos schema_1d (tile_domain_T schema_1d [0])) q"
  "frag_disjoint (tile_pos schema_1d (tile_domain_T schema_1d [0])) [(0, [0], [9]), (1, [2], [5])]"
  by (simp_all add: state_1d_def dense_range_def tile_domain_1d tile_pos_1d tile_cells_1d_def
      vec_at_def dense_fragment_def frag_disjoint_def)

lemma state_1d_schema: "array_schema (state_1d fs) = schema_1d"
  by (simp add: state_1d_def)

text \<open>
  The plan of one tile when every range comes from a dense fragment. Let the schema
  keep its contract on the cells of the current tile, and let the ranges handed to the
  merge be well-formed ranges of dense fragments of the array, disjoint per fragment.
  Then the sweep ends, and the positions of the cells of the plan, in the order of the
  plan, increase strictly. The ghost flag of the result may be set: on such inputs the
  source has read \<open>pq.top()\<close> on the empty queue at line 352, and what is stated is the
  outcome when that read does no harm (its value is never looked at). Ranges of sparse
  fragments and of the empty fragment \<open>-1\<close> are not covered.
\<close>

lemma dense_plan_cells_strictly_sorted:
  fixes s :: "'fs ArrayReadState"
  assumes "range_global_tile_coords_' s = Some tc"
    and "cell_order_contract (array_schema s) (tile_domain_T (array_schema s) tc) C
                (tile_pos (array_schema s) (tile_domain_T (array_schema s) tc))"
    and "\<forall>q\<in>set unsorted. dense_range (fragments s) C
                  (tile_pos (array_schema s) (tile_domain_T (array_schema s) tc)) q"
    and "frag_disjoint (tile_pos (array_schema s) (tile_domain_T (array_schema s) tc)) unsorted"
  shows "\<exists>plan flag.
      compute_fragment_cell_pos_ranges s unsorted = Some (TILEDB_ARS_OK, plan, flag)
    \<and> sorted_wrt (<) (map snd (plan_cells plan))"
proof -
  from compute_fragment_cell_pos_ranges_dense [OF assms]
  obtain res flag where
    c: "compute_fragment_cell_pos_ranges s unsorted
        = Some (TILEDB_ARS_OK,
                map (\<lambda>r. (fst r, (range_lo (tile_pos (array_schema s) (tile_domain_T (array_schema s) tc)) r,
                                  range_hi (tile_pos (array_schema s) (tile_domain_T (array_schema s) tc)) r))) res,
                flag)"
    and srt: "sorted_wrt (\<lambda>a b. range_hi (tile_pos (array_schema s) (tile_domain_T (array_schema s) tc)) a
                         < range_lo (tile_pos (array_schema s) (tile_domain_T (array_schema s) tc)) b) res"
    by blast
  from plan_cells_sorted [OF srt] c show ?thesis by blast
qed

lemma dense_plan_cells_strictly_sorted_run:
  "compute_fragment_cell_pos_ranges (state_1d [dense_fragment, dense_fragment])
        [(0, [0], [9]), (1, [2], [5])]
     = Some (TILEDB_ARS_OK, [(0, (0, 1)), (1, (2, 5)), (0, (6, 9))], False)
   \<and> sorted_wrt (<) (map snd (plan_cells [(0, (0, 1)), (1, (2, 5)), (0, (6, 9))]))"
  using dense_plan_cells_strictly_sorted [of "state_1d [dense_fragment, dense_fragment]" "[0]"
      tile_cells_1d "[(0, [0], [9]), (1, [2], [5])]"]
    dense_run_hyps contract_1d dense_run
  unfolding state_1d_schema by auto

text \<open>
  Under the same hypotheses the plan holds position \<open>p\<close> for fragment \<open>f\<close> exactly when
  \<open>f\<close> is the highest id among the fragments whose ranges cover \<open>p\<close>; a position no
  range covers is not in the plan.
\<close>

lemma dense_plan_delivers_newest:
  fixes s :: "'fs ArrayReadState"
  assumes "range_global_tile_coords_' s = Some tc"
    and "cell_order_contract (array_schema s) (tile_domain_T (array_schema s) tc) C
                (tile_pos (array_schema s) (tile_domain_T (array_schema s) tc))"
    and "\<forall>q\<in>set unsorted. dense_range (fragments s) C
                  (tile_pos (array_schema s) (tile_domain_T (array_schema s) tc)) q"
    and "frag_disjoint (tile_pos (array_schema s) (tile_domain_T (array_schema s) tc)) unsorted"
  shows "\<exists>plan flag.
      compute_fragment_cell_pos_ranges s unsorted = Some (TILEDB_ARS_OK, plan, flag)
    \<and> (\<forall>p f. (f, p) \<in> set (plan_cells plan)
           \<longleftrightarrow> winner (tile_pos (array_schema s) (tile_domain_T (array_schema s) tc)) unsorted p
                 = Some f)"
proof -
  let ?P = "tile_pos (array_schema s) (tile_domain_T (array_schema s) tc)"
  from compute_fragment_cell_pos_ranges_dense [OF assms]
  obtain res flag where
    c: "compute_fragment_cell_pos_ranges s unsorted
        = Some (TILEDB_ARS_OK, map (\<lambda>r. (fst r, (range_lo ?P r, range_hi ?P r))) res, flag)"
    and srt: "sorted_wrt (\<lambda>a b. range_hi ?P a < range_lo ?P b) res"
    and ne: "\<forall>r\<in>set res. range_lo ?P r \<le> range_hi ?P r"
    and w: "\<forall>p. winner ?P res p = winner ?P unsorted p"
    by blast
  have "\<forall>p f. (f, p) \<in> set (plan_cells (map (\<lambda>r. (fst r, (range_lo ?P r, range_hi ?P r))) res))
           \<longleftrightarrow> winner ?P unsorted p = Some f"
    using winner_disjoint [OF srt ne] w by (simp add: plan_cells_mem)
  with c show ?thesis by blast
qed

lemma dense_plan_delivers_newest_run:
  "compute_fragment_cell_pos_ranges (state_1d [dense_fragment, dense_fragment])
        [(0, [0], [9]), (1, [2], [5])]
     = Some (TILEDB_ARS_OK, [(0, (0, 1)), (1, (2, 5)), (0, (6, 9))], False)
   \<and> (1, 3) \<in> set (plan_cells [(0, (0, 1)), (1, (2, 5)), (0, (6, 9))])
   \<and> winner (tile_pos schema_1d (tile_domain_T schema_1d [0])) [(0, [0], [9]), (1, [2], [5])] 3
       = Some 1"
proof -
  from dense_plan_delivers_newest [of "state_1d [dense_fragment, dense_fragment]" "[0]"
      tile_cells_1d "[(0, [0], [9]), (1, [2], [5])]", unfolded state_1d_schema,
      OF dense_run_hyps(1) contract_1d dense_run_hyps(2,3)]
  obtain plan flag where
    c: "compute_fragment_cell_pos_ranges (state_1d [dense_fragment, dense_fragment])
          [(0, [0], [9]), (1, [2], [5])] = Some (TILEDB_ARS_OK, plan, flag)"
    and w: "\<forall>p f. (f, p) \<in> set (plan_cells plan)
           \<longleftrightarrow> winner (tile_pos schema_1d (tile_domain_T schema_1d [0]))
                 [(0, [0], [9]), (1, [2], [5])] p = Some f"
    by blast
  from c dense_run have plan: "plan = [(0, (0, 1)), (1, (2, 5)), (0, (6, 9))]" by simp
  have m: "(1, 3) \<in> set (plan_cells [(0, (0, 1)), (1, (2, 5)), (0, (6, 9))])"
    by simp
  from w plan m have "winner (tile_pos schema_1d (tile_domain_T schema_1d [0]))
      [(0, [0], [9]), (1, [2], [5])] 3 = Some 1" by blast
  with dense_run m show ?thesis by blast
qed

section \<open>Cells that reach no buffer\<close>

text \<open>
  Claim C1, on two sets of fragments over the one-dimensional array.

  First, the dense fragment \<open>0\<close> stores the whole tile and the newer sparse fragment \<open>1\<close>
  stores the cells \<open>3\<close> and \<open>7\<close>; its range is the tight range \<open>[3, 7]\<close>. The dense range
  is cut around the whole sparse range (lines 357--391), and the sparse range, which
  does not overlap the next top, goes to the plan as it is (lines 397--401). The plan
  holds the positions \<open>0, 1, 2\<close> and \<open>8, 9\<close> for fragment \<open>0\<close> and \<open>3\<close> and \<open>7\<close> for fragment
  \<open>1\<close>: the cells \<open>4\<close>, \<open>5\<close> and \<open>6\<close>, which fragment \<open>0\<close> stores, are delivered from no
  fragment.

  Second, the only fragment is sparse and stores the cells \<open>0\<close> and \<open>9\<close>, so the tile has
  no fragment with the maximum overlap and the merge receives the range of the empty
  fragment \<open>-1\<close> over the whole tile, which stands for the fill values. When that range
  is popped, \<open>fragments[-1]\<close> is evaluated (line 301): the run is undefined, and no fill
  value is delivered.
\<close>

theorem covered_cells_missing_from_plan:
  "compute_fragment_cell_pos_ranges (state_1d [dense_fragment, sparse_fragment [3, 7]])
        [(0, [0], [9]), (1, [3], [7])]
     = Some (TILEDB_ARS_OK, [(0, (0, 2)), (1, (3, 3)), (1, (7, 7)), (0, (8, 9))], False)
   \<and> map snd (plan_cells [(0, (0, 2)), (1, (3, 3)), (1, (7, 7)), (0, (8, 9))])
       = [0, 1, 2, 3, 7, 8, 9]
   \<and> compute_fragment_cell_pos_ranges (state_1d [sparse_fragment [0, 9]])
        [(- 1, [0], [9]), (0, [0], [9])]
     = Some (UNDEFINED_BEHAVIOUR, [], False)"
  by code_simp

section \<open>A tile that no fragment covers completely\<close>


section \<open>Two attributes in one read call\<close>

text \<open>
  Claim C5, at the one-dimensional array with one dense fragment (cell \<open>p\<close> holds
  \<open>100 + p\<close>) and the attributes \<open>0\<close> and \<open>1\<close> requested. With buffers that hold the whole
  result, attribute \<open>0\<close> receives the ten cells and sets \<open>done_\<close> when it finds the tile
  cursor exhausted; the loop of attribute \<open>1\<close> then meets \<open>done_\<close> at line 1001 before
  it has copied anything and returns size \<open>0\<close>. With buffers of four cells the first call
  returns four cells for each attribute. The calls with the small buffers therefore do
  not add up to the output of the single call.
\<close>

theorem done_flag_starves_second_attribute:
  "map_option (\<lambda>(rc, s, buffers, buffer_sizes). (rc, buffers, buffer_sizes))
     (read_multiple_fragments (fresh_state [0, 1])
        [[0, 0, 0, 0, 0, 0, 0, 0, 0, 0], [0, 0, 0, 0, 0, 0, 0, 0, 0, 0]] [10, 10])
     = Some (Some TILEDB_ARS_OK,
             [[100, 101, 102, 103, 104, 105, 106, 107, 108, 109],
              [0, 0, 0, 0, 0, 0, 0, 0, 0, 0]],
             [10, 0])
   \<and> map_option (\<lambda>(rc, s, buffers, buffer_sizes). (rc, buffers, buffer_sizes))
     (read_multiple_fragments (fresh_state [0, 1]) [[0, 0, 0, 0], [0, 0, 0, 0]] [4, 4])
     = Some (Some TILEDB_ARS_OK, [[100, 101, 102, 103], [100, 101, 102, 103]], [4, 4])"
  by code_simp

end
